theory Spec2Isabelle
  imports Main
begin

section \<open>The mock serial-port binding (binding-mock.ts)\<close>

text \<open>
  The module keeps two globals, the table \<^verbatim>\<open>ports\<close> from a path to a \<^verbatim>\<open>MockPort\<close> object and
  the counter \<^verbatim>\<open>serialNumber\<close>, and defines the class \<^verbatim>\<open>MockBinding\<close>. The embedding follows one
  binding instance together with the globals and with the part of the Node runtime that the
  methods rely on: the \<^verbatim>\<open>process.nextTick\<close> queue, the promise job (microtask) queue and the
  promises the methods hand out.

  \<^item> A \<^verbatim>\<open>Buffer\<close> that the binding owns (\<^verbatim>\<open>port.data\<close>, \<^verbatim>\<open>readyData\<close>, \<^verbatim>\<open>lastWrite\<close>, \<^verbatim>\<open>recording\<close>)
    is only ever replaced (\<^verbatim>\<open>Buffer.concat\<close>, \<^verbatim>\<open>Buffer.from\<close>, \<^verbatim>\<open>slice\<close>, \<^verbatim>\<open>Buffer.alloc\<close>), never written
    in place, so it is a value: a list of bytes.
  \<^item> A \<^verbatim>\<open>Buffer\<close> of the caller (the argument of \<^verbatim>\<open>read\<close> and \<^verbatim>\<open>write\<close>) is a mutable object that the
    caller keeps: it lives in a store, \<open>buffers\<close>, under an address.
  \<^item> A \<^verbatim>\<open>MockPort\<close> is a mutable object shared by the table and by the instance that looked it
    up: it lives in a store, \<open>heap\<close>, under an address, and \<^verbatim>\<open>ports\<close> and \<^verbatim>\<open>this.port\<close> hold
    addresses. \<^verbatim>\<open>ports = {}\<close> drops the table's references, not the objects.
  \<^item> Byte counts and offsets are natural numbers.
\<close>

type_synonym buffer = "char list"
type_synonym ref = nat
type_synonym bref = nat
type_synonym pid = nat

subsection \<open>Data\<close>

text \<open>
  The options given to \<^verbatim>\<open>open\<close> are typed \<^verbatim>\<open>any\<close>; the binding reads \<^verbatim>\<open>lock\<close> (for its truthiness)
  and \<^verbatim>\<open>baudRate\<close> only. \<open>NotAnObject\<close> stands for every argument with
  \<^verbatim>\<open>typeof options !== 'object'\<close>.
\<close>

record open_options =
  baudRate :: nat
  lock :: bool

datatype options_arg = NotAnObject | Options open_options

text \<open>
  \<^verbatim>\<open>info\<close>: the fields that vary. \<^verbatim>\<open>manufacturer\<close> is a constant and the other fields are
  \<^verbatim>\<open>undefined\<close>. \<^verbatim>\<open>info.serialNumber\<close> is \<^verbatim>\<open>String(serialNumber)\<close>, the decimal numeral of the
  counter; the embedding keeps the number.
\<close>

record port_info =
  comName :: string
  info_serialNumber :: nat

record MockPort =
  info :: port_info
  data :: buffer
  echo :: bool
  record' :: bool
  readyData :: buffer
  openOpt :: "open_options option"

text \<open>The second argument of \<^verbatim>\<open>createPort\<close>: a key that is absent keeps its default.\<close>

record create_options =
  opt_echo :: "bool option"
  opt_record :: "bool option"
  opt_readyData :: "buffer option"

text \<open>
  The exceptions of the module, one constructor for each \<^verbatim>\<open>throw\<close>, in the order of the
  source; \<open>SetDataOfNull\<close> is the \<^verbatim>\<open>TypeError\<close> that the runtime raises when \<^verbatim>\<open>flush\<close> assigns
  to \<^verbatim>\<open>this.port.data\<close> after the port has been closed.
\<close>

datatype error =
    PortMustBeOpenToEmit      \<comment> \<open>Error: Port must be open to pretend to receive data\<close>
  | PathNotValid              \<comment> \<open>TypeError: "path" is not a valid port\<close>
  | OptionsNotObject          \<comment> \<open>TypeError: "options" is not an object\<close>
  | PortDoesNotExist string   \<comment> \<open>Error: Port does not exist - please call MockBinding.createPort(path) first\<close>
  | PortLocked                \<comment> \<open>Error: Port is locked cannot open\<close>
  | BindingAlreadyOpen        \<comment> \<open>Error: Open: binding is already open\<close>
  | AlreadyClosed             \<comment> \<open>Error: already closed\<close>
  | PortIsClosed              \<comment> \<open>Error: port is closed\<close>
  | ReadCanceled              \<comment> \<open>Error: Read canceled\<close>
  | BufferNotBuffer           \<comment> \<open>TypeError: "buffer" is not a Buffer\<close>
  | PortNotOpen               \<comment> \<open>Error: Port is not open\<close>
  | OverlappingWrites         \<comment> \<open>Error: Overlapping writes are not supported and should be queued by the serialport object\<close>
  | WriteCanceled             \<comment> \<open>Error: Write canceled\<close>
  | SetDataOfNull

text \<open>The argument of \<^verbatim>\<open>write\<close>: a \<^verbatim>\<open>Buffer\<close> of the caller, or anything else.\<close>

datatype write_arg = ABuffer bref | NotABuffer

text \<open>
  How a promise ends: fulfilled with \<^verbatim>\<open>undefined\<close>, fulfilled with a number (\<^verbatim>\<open>read\<close>), or
  rejected.
\<close>

datatype outcome = Resolved | ResolvedNum nat | Rejected error

text \<open>
  The closure that \<^verbatim>\<open>read\<close> stores in \<^verbatim>\<open>this.pendingRead\<close>: it captures \<^verbatim>\<open>buffer\<close>, \<^verbatim>\<open>offset\<close>,
  \<^verbatim>\<open>length\<close> and the \<^verbatim>\<open>resolve\<close>/\<^verbatim>\<open>reject\<close> pair of the promise it was created in.
\<close>

datatype thunk = PendingRead bref nat nat pid

text \<open>
  The rest of an \<^verbatim>\<open>async\<close> body after an \<^verbatim>\<open>await\<close>, with the variables it captures and the
  promise of the call it belongs to. \<open>DrainK\<close> is \<^verbatim>\<open>drain\<close> after \<^verbatim>\<open>await this.writeOperation\<close>
  (with the value awaited), \<open>DrainK2\<close> after its \<^verbatim>\<open>await resolveNextTick()\<close>.
\<close>

datatype cont =
    OpenK string open_options pid
  | ReadK bref nat nat pid
  | WriteK bref pid
  | FlushK pid
  | DrainK pid "pid option"
  | DrainK2 pid

text \<open>
  A callback on the \<^verbatim>\<open>process.nextTick\<close> queue. \<open>Wake k\<close> is the callback of
  \<^verbatim>\<open>resolveNextTick\<close>: it resolves the promise that \<open>k\<close> awaits. \<open>EmitReady\<close> and \<open>EmitWritten\<close> are
  the two arrow functions that \<^verbatim>\<open>open\<close> and \<^verbatim>\<open>write\<close> schedule, \<open>CallPendingRead\<close> is
  \<^verbatim>\<open>process.nextTick(this.pendingRead)\<close>.
\<close>

datatype tick =
    Wake cont
  | EmitReady ref
  | EmitWritten buffer
  | CallPendingRead thunk

record state =
  \<comment> \<open>the module\<close>
  ports :: "string \<rightharpoonup> ref"
  serialNumber :: nat
  \<comment> \<open>the objects\<close>
  heap :: "ref \<Rightarrow> MockPort"
  nextRef :: ref
  buffers :: "bref \<Rightarrow> buffer"
  \<comment> \<open>the instance\<close>
  lastWrite :: "buffer option"
  pendingRead :: "thunk option"
  port :: "ref option"
  recording :: buffer
  this_serialNumber :: "nat option"
  writeOperation :: "pid option"
  isOpen :: bool
  \<comment> \<open>the runtime\<close>
  ticks :: "tick list"
  micro :: "cont list"
  in_micro :: bool
  awaiting :: "(pid \<times> cont) list"
  promises :: "pid \<rightharpoonup> outcome"
  nextPid :: pid
  uncaught :: "error option"

text \<open>
  \<open>port s = None\<close> is \<^verbatim>\<open>this.port\<close> being \<^verbatim>\<open>null\<close> or \<^verbatim>\<open>undefined\<close>. \<open>promises s p = None\<close> is
  a promise that is still pending. \<open>awaiting s\<close> holds the continuations that wait for a
  promise of the binding (only \<^verbatim>\<open>drain\<close> does that). \<open>in_micro s\<close> tells that the runtime is
  draining the microtask queue; \<open>uncaught s\<close> is an exception that escaped a
  \<^verbatim>\<open>nextTick\<close> callback, which ends the process.
\<close>

definition blank_port :: MockPort where
  "blank_port = \<lparr>info = \<lparr>comName = [], info_serialNumber = 0\<rparr>, data = [], echo = False,
     record' = False, readyData = [], openOpt = None\<rparr>"

text \<open>The module as loaded, and an instance as the constructor leaves it.\<close>

definition init :: state where
  "init = \<lparr>ports = Map.empty, serialNumber = 0,
     heap = (\<lambda>r. blank_port), nextRef = 0, buffers = (\<lambda>b. []),
     lastWrite = None, pendingRead = None, port = None, recording = [],
     this_serialNumber = None, writeOperation = None, isOpen = False,
     ticks = [], micro = [], in_micro = False, awaiting = [], promises = Map.empty,
     nextPid = 0, uncaught = None\<rparr>"

text \<open>
  \<^verbatim>\<open>new MockBinding(opt)\<close>: the constructor. The theory follows the new instance from here on;
  the module and the objects stay as they are.
\<close>

definition new_binding :: "state \<Rightarrow> state" where
  "new_binding s = s\<lparr>pendingRead := None, isOpen := False, port := None, lastWrite := None,
     recording := [], writeOperation := None, this_serialNumber := None\<rparr>"

text \<open>The caller creates a \<^verbatim>\<open>Buffer\<close> at address \<open>b\<close>, or overwrites the one it has there.\<close>

definition set_buffer :: "bref \<Rightarrow> buffer \<Rightarrow> state \<Rightarrow> state" where
  "set_buffer b d s = s\<lparr>buffers := (buffers s)(b := d)\<rparr>"

subsection \<open>Promises\<close>

text \<open>
  \<^verbatim>\<open>resolve\<close> and \<^verbatim>\<open>reject\<close>: the first call settles the promise, a later one does nothing.
  Settling moves the continuations that await the promise to the microtask queue.
\<close>

definition settle :: "pid \<Rightarrow> outcome \<Rightarrow> state \<Rightarrow> state" where
  "settle p out s =
     (case promises s p of
        Some old \<Rightarrow> s
      | None \<Rightarrow>
          s\<lparr>promises := (promises s)(p \<mapsto> out),
            micro := micro s @ map snd (filter (\<lambda>wk. fst wk = p) (awaiting s)),
            awaiting := filter (\<lambda>wk. fst wk \<noteq> p) (awaiting s)\<rparr>)"

text \<open>\<^verbatim>\<open>await v\<close> for \<open>v\<close> the value of \<^verbatim>\<open>this.writeOperation\<close>: \<^verbatim>\<open>null\<close>, or a promise.\<close>

definition await :: "pid option \<Rightarrow> cont \<Rightarrow> state \<Rightarrow> state" where
  "await v k s =
     (case v of
        None \<Rightarrow> s\<lparr>micro := micro s @ [k]\<rparr>
      | Some w \<Rightarrow>
          (case promises s w of
             None \<Rightarrow> s\<lparr>awaiting := awaiting s @ [(w, k)]\<rparr>
           | Some out \<Rightarrow> s\<lparr>micro := micro s @ [k]\<rparr>))"

text \<open>
  \<^verbatim>\<open>await resolveNextTick()\<close>: the callback that resolves the awaited promise goes to the
  \<^verbatim>\<open>nextTick\<close> queue.
\<close>

definition await_tick :: "cont \<Rightarrow> state \<Rightarrow> state" where
  "await_tick k s = s\<lparr>ticks := ticks s @ [Wake k]\<rparr>"

text \<open>A call of an \<^verbatim>\<open>async\<close> method that reaches an \<^verbatim>\<open>await\<close> returns a new, pending promise.\<close>

definition new_promise :: "state \<Rightarrow> pid \<times> state" where
  "new_promise s = (nextPid s, s\<lparr>nextPid := nextPid s + 1\<rparr>)"

subsection \<open>The registry\<close>

definition reset :: "state \<Rightarrow> state" where
  "reset s = s\<lparr>ports := Map.empty\<rparr>"

definition createPort :: "string \<Rightarrow> create_options \<Rightarrow> state \<Rightarrow> state" where
  "createPort path options s =
     (let n = serialNumber s + 1;
          r = nextRef s;
          p = \<lparr>info = \<lparr>comName = path, info_serialNumber = n\<rparr>,
               data = [],
               echo = (case opt_echo options of None \<Rightarrow> False | Some e \<Rightarrow> e),
               record' = (case opt_record options of None \<Rightarrow> False | Some c \<Rightarrow> c),
               readyData = (case opt_readyData options of None \<Rightarrow> ''READY'' | Some d \<Rightarrow> d),
               openOpt = None\<rparr>
      in s\<lparr>serialNumber := n, heap := (heap s)(r := p), nextRef := r + 1,
           ports := (ports s)(path \<mapsto> r)\<rparr>)"

subsection \<open>The methods of an instance\<close>

text \<open>
  A method that is not \<^verbatim>\<open>async\<close> (\<^verbatim>\<open>emitData\<close>), or that has no \<^verbatim>\<open>await\<close> (\<^verbatim>\<open>close\<close>), runs to its
  end in the call: it returns \<open>Inl e\<close> where it throws and the new state otherwise. An
  \<^verbatim>\<open>async\<close> method runs up to its first \<^verbatim>\<open>await\<close> in the call: it returns \<open>Inl e\<close> where it throws
  before (the promise it returns is then already rejected with \<open>e\<close>) and otherwise the pending
  promise, with the rest of its body scheduled.

  \<^verbatim>\<open>if (!this.isOpen || !this.port) throw ...\<close> is the \<^theory_text>\<open>case\<close> on \<open>(isOpen s, port s)\<close> whose
  branch \<open>(True, Some r)\<close> goes on.
\<close>

definition emitData :: "buffer \<Rightarrow> state \<Rightarrow> error + state" where
  "emitData d s =
     (case (isOpen s, port s) of
        (True, Some r) \<Rightarrow>
          (let s1 = s\<lparr>heap := (heap s)(r := (heap s r)\<lparr>data := data (heap s r) @ d\<rparr>)\<rparr>
           in case pendingRead s1 of
                None \<Rightarrow> Inr s1
              | Some t \<Rightarrow> Inr (s1\<lparr>ticks := ticks s1 @ [CallPendingRead t], pendingRead := None\<rparr>))
      | other \<Rightarrow> Inl PortMustBeOpenToEmit)"

definition open' :: "string \<Rightarrow> options_arg \<Rightarrow> state \<Rightarrow> (error + pid) \<times> state" where
  "open' path options s =
     (if path = [] then (Inl PathNotValid, s)
      else case options of
        NotAnObject \<Rightarrow> (Inl OptionsNotObject, s)
      | Options opts \<Rightarrow>
          (case new_promise s of (p, s1) \<Rightarrow> (Inr p, await_tick (OpenK path opts p) s1)))"

text \<open>\<^verbatim>\<open>port.openOpt && port.openOpt.lock\<close>.\<close>

definition lock_held :: "MockPort \<Rightarrow> bool" where
  "lock_held pr = (case openOpt pr of None \<Rightarrow> False | Some oo \<Rightarrow> lock oo)"

text \<open>\<^verbatim>\<open>open\<close> from \<^verbatim>\<open>const port = (this.port = ports[path])\<close> on.\<close>

definition openK :: "string \<Rightarrow> open_options \<Rightarrow> pid \<Rightarrow> state \<Rightarrow> state" where
  "openK path opts p s =
     (let s1 = s\<lparr>port := ports s path\<rparr>
      in case ports s path of
        None \<Rightarrow> settle p (Rejected (PortDoesNotExist path)) s1
      | Some r \<Rightarrow>
          (let s2 = s1\<lparr>this_serialNumber := Some (info_serialNumber (info (heap s1 r)))\<rparr>
           in if lock_held (heap s2 r)
              then settle p (Rejected PortLocked) s2
              else case (isOpen s2, port s2) of
                (True, Some r') \<Rightarrow>
                  (let s3 = s2\<lparr>heap := (heap s2)(r := (heap s2 r)\<lparr>openOpt := Some opts\<rparr>),
                                isOpen := True\<rparr>;
                       s4 = (if echo (heap s3 r) then s3\<lparr>ticks := ticks s3 @ [EmitReady r]\<rparr>
                             else s3)
                   in settle p Resolved s4)
              | other \<Rightarrow> settle p (Rejected BindingAlreadyOpen) s2))"

text \<open>
  The closure in \<^verbatim>\<open>this.pendingRead\<close>, called with an error (by \<^verbatim>\<open>close\<close>) or with none (from
  the \<^verbatim>\<open>nextTick\<close> queue). With an error it rejects its promise. Without one it calls
  \<^verbatim>\<open>this.read\<close> again, which awaits the next tick, and hands the result of that call to its own
  promise with \<^verbatim>\<open>then(resolve, reject)\<close>: the embedding lets the new call settle the promise of
  the closure itself.
\<close>

definition callPendingRead :: "thunk \<Rightarrow> error option \<Rightarrow> state \<Rightarrow> state" where
  "callPendingRead t err s =
     (case t of PendingRead b off len p \<Rightarrow>
        (case err of
           Some e \<Rightarrow> settle p (Rejected e) s
         | None \<Rightarrow> await_tick (ReadK b off len p) s))"

definition close :: "state \<Rightarrow> error + state" where
  "close s =
     (case (isOpen s, port s) of
        (True, Some r) \<Rightarrow>
          (let s1 = s\<lparr>heap := (heap s)(r := (heap s r)\<lparr>openOpt := None, data := []\<rparr>),
                       port := None, this_serialNumber := None, isOpen := False\<rparr>
           in case pendingRead s1 of
                None \<Rightarrow> Inr s1
              | Some t \<Rightarrow> Inr (callPendingRead t (Some PortIsClosed) s1))
      | other \<Rightarrow> Inl AlreadyClosed)"

definition read :: "bref \<Rightarrow> nat \<Rightarrow> nat \<Rightarrow> state \<Rightarrow> (error + pid) \<times> state" where
  "read b off len s =
     (case new_promise s of (p, s1) \<Rightarrow> (Inr p, await_tick (ReadK b off len p) s1))"

text \<open>
  \<^verbatim>\<open>source.copy(target, targetStart)\<close>: the number of bytes copied and the target afterwards.
  It copies what fits, and nothing when \<^verbatim>\<open>targetStart\<close> is not inside the target.
\<close>

definition copy :: "buffer \<Rightarrow> buffer \<Rightarrow> nat \<Rightarrow> nat \<times> buffer" where
  "copy source target targetStart =
     (if length target \<le> targetStart then (0, target)
      else let n = min (length source) (length target - targetStart)
           in (n, take targetStart target @ take n source @ drop (targetStart + n) target))"

text \<open>\<^verbatim>\<open>read\<close> after its \<^verbatim>\<open>await\<close>.\<close>

definition readK :: "bref \<Rightarrow> nat \<Rightarrow> nat \<Rightarrow> pid \<Rightarrow> state \<Rightarrow> state" where
  "readK b off len p s =
     (case (isOpen s, port s) of
        (True, Some r) \<Rightarrow>
          if length (data (heap s r)) \<le> 0 then s\<lparr>pendingRead := Some (PendingRead b off len p)\<rparr>
          else
            (let d = take len (data (heap s r))
             in case copy d (buffers s b) off of
                  (readLength, target) \<Rightarrow>
                    settle p (ResolvedNum readLength)
                      (s\<lparr>buffers := (buffers s)(b := target),
                         heap := (heap s)(r := (heap s r)\<lparr>data := drop len (data (heap s r))\<rparr>)\<rparr>))
      | other \<Rightarrow> settle p (Rejected ReadCanceled) s)"

definition write' :: "write_arg \<Rightarrow> state \<Rightarrow> (error + pid) \<times> state" where
  "write' buffer s =
     (case buffer of
        NotABuffer \<Rightarrow> (Inl BufferNotBuffer, s)
      | ABuffer b \<Rightarrow>
          if \<not> isOpen s then (Inl PortNotOpen, s)
          else if writeOperation s \<noteq> None then (Inl OverlappingWrites, s)
          else case new_promise s of
                 (p, s1) \<Rightarrow> (Inr p, (await_tick (WriteK b p) s1)\<lparr>writeOperation := Some p\<rparr>))"

text \<open>
  The body of the \<^verbatim>\<open>async\<close> arrow function of \<^verbatim>\<open>write\<close> after its \<^verbatim>\<open>await\<close>. \<^verbatim>\<open>write\<close> returns
  the promise of that function, so the two promises end alike and are one here.
\<close>

definition writeK :: "bref \<Rightarrow> pid \<Rightarrow> state \<Rightarrow> state" where
  "writeK b p s =
     (case (isOpen s, port s) of
        (True, Some r) \<Rightarrow>
          (let d = buffers s b;
               s1 = s\<lparr>lastWrite := Some d\<rparr>;
               s2 = (if record' (heap s1 r) then s1\<lparr>recording := recording s1 @ d\<rparr> else s1);
               s3 = (if echo (heap s2 r) then s2\<lparr>ticks := ticks s2 @ [EmitWritten d]\<rparr> else s2);
               s4 = s3\<lparr>writeOperation := None\<rparr>
           in settle p Resolved s4)
      | other \<Rightarrow> settle p (Rejected WriteCanceled) s)"

definition flush :: "state \<Rightarrow> (error + pid) \<times> state" where
  "flush s =
     (case (isOpen s, port s) of
        (True, Some r) \<Rightarrow> (case new_promise s of (p, s1) \<Rightarrow> (Inr p, await_tick (FlushK p) s1))
      | other \<Rightarrow> (Inl PortNotOpen, s))"

definition flushK :: "pid \<Rightarrow> state \<Rightarrow> state" where
  "flushK p s =
     (case port s of
        None \<Rightarrow> settle p (Rejected SetDataOfNull) s
      | Some r \<Rightarrow> settle p Resolved (s\<lparr>heap := (heap s)(r := (heap s r)\<lparr>data := []\<rparr>)\<rparr>))"

definition drain :: "state \<Rightarrow> (error + pid) \<times> state" where
  "drain s =
     (case (isOpen s, port s) of
        (True, Some r) \<Rightarrow>
          (case new_promise s of
             (p, s1) \<Rightarrow> (Inr p, await (writeOperation s1) (DrainK p (writeOperation s1)) s1))
      | other \<Rightarrow> (Inl PortNotOpen, s))"

text \<open>
  \<^verbatim>\<open>drain\<close> after \<^verbatim>\<open>await this.writeOperation\<close>: the \<^verbatim>\<open>await\<close> throws what the write was rejected
  with.
\<close>

definition drainK :: "pid \<Rightarrow> pid option \<Rightarrow> state \<Rightarrow> state" where
  "drainK p v s =
     (case v of
        None \<Rightarrow> await_tick (DrainK2 p) s
      | Some w \<Rightarrow>
          (case promises s w of
             Some (Rejected e) \<Rightarrow> settle p (Rejected e) s
           | other \<Rightarrow> await_tick (DrainK2 p) s))"

subsection \<open>The runtime\<close>

text \<open>A continuation resumes as a microtask.\<close>

fun resume :: "cont \<Rightarrow> state \<Rightarrow> state" where
  "resume (OpenK path opts p) s = openK path opts p s"
| "resume (ReadK b off len p) s = readK b off len p s"
| "resume (WriteK b p) s = writeK b p s"
| "resume (FlushK p) s = flushK p s"
| "resume (DrainK p v) s = drainK p v s"
| "resume (DrainK2 p) s = settle p Resolved s"

text \<open>
  The two scheduled arrow functions are \<^verbatim>\<open>if (this.isOpen) { this.emitData(...) }\<close>; what
  \<^verbatim>\<open>emitData\<close> throws there, nothing catches.
\<close>

definition emitIfOpen :: "buffer \<Rightarrow> state \<Rightarrow> state" where
  "emitIfOpen d s =
     (if isOpen s then
        (case emitData d s of Inl e \<Rightarrow> s\<lparr>uncaught := Some e\<rparr> | Inr s1 \<Rightarrow> s1)
      else s)"

fun run_tick :: "tick \<Rightarrow> state \<Rightarrow> state" where
  "run_tick (Wake k) s = s\<lparr>micro := micro s @ [k]\<rparr>"
| "run_tick (EmitReady r) s = emitIfOpen (readyData (heap s r)) s"
| "run_tick (EmitWritten d) s = emitIfOpen d s"
| "run_tick (CallPendingRead t) s = callPendingRead t None s"

text \<open>
  One callback of the runtime. Node runs the \<^verbatim>\<open>nextTick\<close> queue until it is empty, then the
  microtask queue until it is empty, and starts over while the \<^verbatim>\<open>nextTick\<close> queue has entries.
\<close>

definition step :: "state \<Rightarrow> state" where
  "step s =
     (case uncaught s of
        Some e \<Rightarrow> s
      | None \<Rightarrow>
          (case (micro s, ticks s) of
             ([], []) \<Rightarrow> s\<lparr>in_micro := False\<rparr>
           | ([], t # ts) \<Rightarrow> run_tick t (s\<lparr>ticks := ts, in_micro := False\<rparr>)
           | (k # ks, []) \<Rightarrow> resume k (s\<lparr>micro := ks, in_micro := True\<rparr>)
           | (k # ks, t # ts) \<Rightarrow>
               if in_micro s then resume k (s\<lparr>micro := ks\<rparr>) else run_tick t (s\<lparr>ticks := ts\<rparr>)))"

text \<open>Nothing is scheduled, or the process has ended.\<close>

definition quiescent :: "state \<Rightarrow> bool" where
  "quiescent s = ((ticks s = [] \<and> micro s = []) \<or> uncaught s \<noteq> None)"

text \<open>
  The runtime is idle: no callback is scheduled and no continuation waits for a promise. It
  is at rest when, moreover, the promise that the next call creates is new.
\<close>

definition idle :: "state \<Rightarrow> bool" where
  "idle s = (uncaught s = None \<and> ticks s = [] \<and> micro s = [] \<and> awaiting s = [])"

definition at_rest :: "state \<Rightarrow> bool" where
  "at_rest s = (idle s \<and> promises s (nextPid s) = None)"

text \<open>The runtime for at most \<open>n\<close> callbacks.\<close>

fun run :: "nat \<Rightarrow> state \<Rightarrow> state" where
  "run 0 s = s"
| "run (Suc n) s = (if quiescent s then s else run n (step s))"

subsection \<open>What a caller can do\<close>

text \<open>
  The calls of the module's interface, the caller writing to a \<^verbatim>\<open>Buffer\<close> of its own, and the
  runtime running its next callback. \<open>perform\<close> keeps the state and drops the value returned;
  a call that throws leaves the state as it is.
\<close>

datatype action =
    ACreatePort string create_options
  | AReset
  | AOpen string options_arg
  | AClose
  | ARead bref nat nat
  | AWrite write_arg
  | AEmitData buffer
  | AFlush
  | ADrain
  | ASetBuffer bref buffer
  | AStep

fun perform :: "action \<Rightarrow> state \<Rightarrow> state" where
  "perform (ACreatePort path options) s = createPort path options s"
| "perform AReset s = reset s"
| "perform (AOpen path options) s = snd (open' path options s)"
| "perform AClose s = (case close s of Inl e \<Rightarrow> s | Inr s1 \<Rightarrow> s1)"
| "perform (ARead b off len) s = snd (read b off len s)"
| "perform (AWrite buffer) s = snd (write' buffer s)"
| "perform (AEmitData d) s = (case emitData d s of Inl e \<Rightarrow> s | Inr s1 \<Rightarrow> s1)"
| "perform AFlush s = snd (flush s)"
| "perform ADrain s = snd (drain s)"
| "perform (ASetBuffer b d) s = set_buffer b d s"
| "perform AStep s = step s"

fun is_create :: "action \<Rightarrow> bool" where
  "is_create (ACreatePort path options) = True"
| "is_create a = False"

text \<open>
  The serial numbers that the \<^verbatim>\<open>createPort\<close> calls of a run give out, in the order of the calls:
  each is read from the \<^verbatim>\<open>info\<close> of the record that the call has just put into the table.
\<close>

fun assigned :: "action list \<Rightarrow> state \<Rightarrow> nat list" where
  "assigned [] s = []"
| "assigned (ACreatePort path options # as) s =
     (let s1 = createPort path options s
      in (case ports s1 path of
            None \<Rightarrow> []
          | Some r \<Rightarrow> [info_serialNumber (info (heap s1 r))]) @ assigned as s1)"
| "assigned (a # as) s = assigned as (perform a s)"

text \<open>\<^verbatim>\<open>createPort\<close> called with no options, or with \<^verbatim>\<open>{}\<close>.\<close>

definition no_options :: create_options where
  "no_options = \<lparr>opt_echo = None, opt_record = None, opt_readyData = None\<rparr>"

subsection \<open>Writes one after the other\<close>

text \<open>
  The caller writes the buffers of a list in turn and lets the runtime run the three callbacks
  of each write (the wake-up, the resumed body, the echo) before the next one.
\<close>

fun write_all :: "bref list \<Rightarrow> state \<Rightarrow> state" where
  "write_all [] s = s"
| "write_all (b # bs) s = write_all bs (run 3 (snd (write' (ABuffer b) s)))"

subsection \<open>The rest of an open among the callbacks\<close>

fun is_openK :: "cont \<Rightarrow> bool" where
  "is_openK (OpenK path opts p) = True"
| "is_openK k = False"

fun wakes_open :: "tick \<Rightarrow> bool" where
  "wakes_open (Wake k) = is_openK k"
| "wakes_open t = False"

text \<open>No \<^verbatim>\<open>open\<close> is under way.\<close>

definition no_open :: "state \<Rightarrow> bool" where
  "no_open s = (list_all (\<lambda>k. \<not> is_openK k) (micro s) \<and>
     list_all (\<lambda>t. \<not> wakes_open t) (ticks s) \<and>
     list_all (\<lambda>wk. \<not> is_openK (snd wk)) (awaiting s))"

text \<open>The callback that \<open>step\<close> runs next is the rest of an \<^verbatim>\<open>open\<close>.\<close>

definition opens_next :: "state \<Rightarrow> bool" where
  "opens_next s =
     (case uncaught s of
        Some e \<Rightarrow> False
      | None \<Rightarrow>
          (case (micro s, ticks s) of
             (k # ks, []) \<Rightarrow> is_openK k
           | (k # ks, t # ts) \<Rightarrow> in_micro s \<and> is_openK k
           | other \<Rightarrow> False))"

subsection \<open>States to try the methods on\<close>

text \<open>
  An instance that holds the record at \<open>r\<close> open: the fields as the assignments of \<^verbatim>\<open>open\<close> set
  them (\<^verbatim>\<open>this.port\<close>, \<^verbatim>\<open>this.serialNumber\<close>, \<^verbatim>\<open>port.openOpt\<close>, \<^verbatim>\<open>this.isOpen\<close>). What the
  methods do on an open instance is stated for states like these.
\<close>

definition attach :: "ref \<Rightarrow> open_options \<Rightarrow> state \<Rightarrow> state" where
  "attach r opts s =
     s\<lparr>heap := (heap s)(r := (heap s r)\<lparr>openOpt := Some opts\<rparr>), port := Some r,
       this_serialNumber := Some (info_serialNumber (info (heap s r))), isOpen := True\<rparr>"

definition options_9600 :: open_options where
  "options_9600 = \<lparr>baudRate = 9600, lock = False\<rparr>"

definition options_lock :: open_options where
  "options_lock = \<lparr>baudRate = 9600, lock = True\<rparr>"

definition echo_record :: create_options where
  "echo_record = \<lparr>opt_echo = Some True, opt_record = Some True, opt_readyData = None\<rparr>"

definition opened :: state where
  "opened = attach 0 options_9600 (createPort ''/dev/A'' no_options init)"

definition opened_echo :: state where
  "opened_echo = attach 0 options_9600 (createPort ''/dev/A'' echo_record init)"

text \<open>The open instance after \<^verbatim>\<open>MockBinding.reset()\<close>, the caller holding a \<^verbatim>\<open>Buffer\<close> "hi".\<close>

definition orphaned :: state where
  "orphaned = reset (set_buffer 3 ''hi'' opened)"

text \<open>A registered port and a new instance.\<close>

definition created :: state where
  "created = createPort ''/dev/A'' no_options init"

text \<open>
  A new instance, while another instance holds the port open with \<^verbatim>\<open>lock\<close>: the record keeps
  the \<^verbatim>\<open>openOpt\<close> of the holder.
\<close>

definition locked_out :: state where
  "locked_out = new_binding (attach 0 options_lock (createPort ''/dev/A'' no_options init))"

text \<open>
  The open instance with "ABC" received, the caller holding a \<^verbatim>\<open>Buffer\<close> of six bytes, or of
  one.
\<close>

definition readable :: state where
  "readable = perform (AEmitData ''ABC'') (set_buffer 3 ''......'' opened)"

definition cramped :: state where
  "cramped = perform (AEmitData ''ABC'') (set_buffer 3 ''x'' opened)"

text \<open>The instance open on a record with \<^verbatim>\<open>echo\<close> and \<^verbatim>\<open>record\<close>, the caller holding "AB".\<close>

definition echo_ab :: state where
  "echo_ab = set_buffer 7 ''AB'' opened_echo"

text \<open>
  The open instance with a read waiting, after it has called \<^verbatim>\<open>open\<close> again with a path that was
  never created: the body of that \<^verbatim>\<open>open\<close> has stored the missing entry in \<^verbatim>\<open>this.port\<close>.
\<close>

definition lost :: state where
  "lost = run 2 (snd (open' ''/dev/B'' (Options options_9600) (run 2 (snd (read 3 0 5 opened)))))"

section \<open>Properties\<close>

subsection \<open>Unfolding\<close>

lemmas sched_defs = settle_def await_def await_tick_def new_promise_def
lemmas call_defs = open'_def read_def write'_def flush_def drain_def close_def emitData_def
  set_buffer_def reset_def callPendingRead_def
lemmas cont_defs = openK_def readK_def writeK_def flushK_def drainK_def callPendingRead_def
  emitIfOpen_def copy_def
lemmas rest_defs = at_rest_def idle_def

subsection \<open>The counter of serial numbers\<close>

lemma serialNumber_resume: "serialNumber (resume k s) = serialNumber s"
  by (cases k) (auto simp: cont_defs sched_defs Let_def
      split: option.splits bool.splits prod.splits outcome.splits)

lemma serialNumber_run_tick: "serialNumber (run_tick t s) = serialNumber s"
  by (cases t) (auto simp: cont_defs sched_defs emitData_def Let_def
      split: option.splits bool.splits thunk.splits sum.splits)

lemma serialNumber_step: "serialNumber (step s) = serialNumber s"
  by (auto simp: step_def serialNumber_resume serialNumber_run_tick
      split: option.splits list.splits)

lemma serialNumber_perform:
  "serialNumber (perform a s) = (if is_create a then serialNumber s + 1 else serialNumber s)"
  by (cases a) (auto simp: call_defs sched_defs createPort_def serialNumber_step Let_def
      split: option.splits bool.splits prod.splits sum.splits thunk.splits write_arg.splits
        options_arg.splits)

lemma assigned_create:
  "assigned (ACreatePort path options # as) s =
     (serialNumber s + 1) # assigned as (createPort path options s)"
  by (simp add: createPort_def Let_def)

subsection \<open>A call from an idle runtime\<close>

lemma run_two:
  "run 2 s = (if quiescent s then s else if quiescent (step s) then step s else step (step s))"
  by (simp add: numeral_2_eq_2)

lemma run_three: "run 3 s = (if quiescent s then s else run 2 (step s))"
  by (simp add: numeral_3_eq_3 numeral_2_eq_2)

text \<open>
  After \<^verbatim>\<open>await resolveNextTick()\<close> with nothing else scheduled, the first callback wakes the
  continuation and the second one runs it.
\<close>

lemma wake_then_resume:
  assumes "uncaught s = None" "micro s = []" "ticks s = []"
  shows "\<not> quiescent (await_tick k s)"
    and "step (await_tick k s) = s\<lparr>ticks := [], in_micro := False, micro := [k]\<rparr>"
    and "\<not> quiescent (s\<lparr>ticks := [], in_micro := False, micro := [k]\<rparr>)"
    and "step (s\<lparr>ticks := [], in_micro := False, micro := [k]\<rparr>) =
      resume k (s\<lparr>ticks := [], micro := [], in_micro := True\<rparr>)"
  using assms by (simp_all add: quiescent_def step_def await_tick_def)

lemma run_two_await_tick:
  assumes "uncaught s = None" "micro s = []" "ticks s = []"
  shows "run 2 (await_tick k s) = resume k (s\<lparr>ticks := [], micro := [], in_micro := True\<rparr>)"
  by (simp add: run_two wake_then_resume [OF assms])

lemma run_three_await_tick:
  assumes "uncaught s = None" "micro s = []" "ticks s = []"
  shows "run 3 (await_tick k s) = run 1 (resume k (s\<lparr>ticks := [], micro := [], in_micro := True\<rparr>))"
  by (simp add: numeral_3_eq_3 wake_then_resume [OF assms])

subsection \<open>The body of open\<close>

lemma openK_closed_binding:
  assumes "\<not> isOpen s" "ports s path = Some r" "promises s p = None" "\<not> lock_held (heap s r)"
  shows "promises (openK path opts p s) p = Some (Rejected BindingAlreadyOpen)"
    and "\<not> isOpen (openK path opts p s)"
    and "heap (openK path opts p s) = heap s"
    and "port (openK path opts p s) = Some r"
  using assms by (auto simp: openK_def settle_def Let_def)

lemma openK_succeeds:
  assumes "isOpen s" "ports s path = Some r" "\<not> lock_held (heap s r)" "promises s p = None"
    "awaiting s = []"
  shows "let s1 = openK path opts p s
     in promises s1 p = Some Resolved \<and> isOpen s1 \<and> port s1 = Some r \<and>
        openOpt (heap s1 r) = Some opts \<and> data (heap s1 r) = data (heap s r) \<and>
        readyData (heap s1 r) = readyData (heap s r) \<and>
        ticks s1 = (if echo (heap s r) then ticks s @ [EmitReady r] else ticks s) \<and>
        micro s1 = micro s \<and> uncaught s1 = uncaught s \<and> pendingRead s1 = pendingRead s \<and>
        awaiting s1 = []"
  using assms by (simp add: openK_def settle_def Let_def)

subsection \<open>The body of read\<close>

lemma copy_fits:
  assumes "length d \<le> length t - off" "d \<noteq> []"
  shows "copy d t off = (length d, take off t @ d @ drop (off + length d) t)"
  using assms by (auto simp: copy_def min_def Let_def)

lemma readK_reads:
  assumes "isOpen s" "port s = Some r" "data (heap s r) \<noteq> []" "0 < len" "promises s p = None"
    and "min len (length (data (heap s r))) \<le> length (buffers s b) - off"
  shows "promises (readK b off len p s) p =
      Some (ResolvedNum (min len (length (data (heap s r)))))"
    and "data (heap (readK b off len p s) r) =
      drop (min len (length (data (heap s r)))) (data (heap s r))"
    and "buffers (readK b off len p s) b =
      take off (buffers s b) @ take len (data (heap s r)) @
      drop (off + min len (length (data (heap s r)))) (buffers s b)"
    and "isOpen (readK b off len p s)"
    and "port (readK b off len p s) = Some r"
proof -
  let ?d = "take len (data (heap s r))"
  have l: "length ?d = min len (length (data (heap s r)))"
    by (simp add: min.commute)
  have ne: "?d \<noteq> []"
    using assms(3,4) by simp
  have c: "copy ?d (buffers s b) off =
    (length ?d, take off (buffers s b) @ ?d @ drop (off + length ?d) (buffers s b))"
    using assms(6) ne by (intro copy_fits) (simp_all add: min.commute)
  have dr: "drop len (data (heap s r)) =
    drop (min len (length (data (heap s r)))) (data (heap s r))"
    by (simp add: min_def)
  show "promises (readK b off len p s) p =
      Some (ResolvedNum (min len (length (data (heap s r)))))"
    using assms(1,2,3,5) by (simp add: readK_def c settle_def Let_def l del: length_take)
  show "data (heap (readK b off len p s) r) =
      drop (min len (length (data (heap s r)))) (data (heap s r))"
    using assms(1,2,3,5) dr by (simp add: readK_def c settle_def Let_def del: length_take)
  show "buffers (readK b off len p s) b =
      take off (buffers s b) @ take len (data (heap s r)) @
      drop (off + min len (length (data (heap s r)))) (buffers s b)"
    using assms(1,2,3,5) by (simp add: readK_def c settle_def Let_def l del: length_take)
  show "isOpen (readK b off len p s)" "port (readK b off len p s) = Some r"
    using assms(1,2,3,5) by (simp_all add: readK_def c settle_def Let_def del: length_take)
qed

text \<open>What the claim about \<^verbatim>\<open>read\<close> says of the state before and the state after.\<close>

lemma readK_front:
  assumes "isOpen s" "port s = Some r" "data (heap s r) \<noteq> []" "0 < len" "promises s p = None"
    and "min len (length (data (heap s r))) \<le> length (buffers s b) - off"
  shows "let n = min len (length (data (heap s r)));
             s2 = readK b off len p s
         in promises s2 p = Some (ResolvedNum n) \<and> 1 \<le> n \<and> n \<le> len \<and>
            take n (drop off (buffers s2 b)) = take n (data (heap s r)) \<and>
            data (heap s r) = take n (data (heap s r)) @ data (heap s2 r) \<and>
            length (data (heap s2 r)) = length (data (heap s r)) - n \<and>
            isOpen s2 \<and> port s2 = Some r"
proof -
  let ?n = "min len (length (data (heap s r)))"
  define s2 where "s2 = readK b off len p s"
  note k = readK_reads [OF assms, folded s2_def]
  have n1: "1 \<le> ?n"
    using assms(3,4) by (cases "data (heap s r)") auto
  have fit: "off \<le> length (buffers s b)"
    using assms(6) n1 by linarith
  have tn: "take len (data (heap s r)) = take ?n (data (heap s r))"
    by (simp add: min_def)
  have tk: "take ?n (drop off (buffers s2 b)) = take ?n (data (heap s r))"
    unfolding k(3) tn using fit by (simp add: min_def)
  have ap: "data (heap s r) = take ?n (data (heap s r)) @ data (heap s2 r)"
    unfolding k(2) by simp
  have ln: "length (data (heap s2 r)) = length (data (heap s r)) - ?n"
    unfolding k(2) by simp
  show ?thesis
    unfolding Let_def s2_def [symmetric] using k(1,4,5) n1 tk ap ln by simp
qed

lemma readK_waits:
  assumes "isOpen s" "port s = Some r" "data (heap s r) = []"
  shows "readK b off len p s = s\<lparr>pendingRead := Some (PendingRead b off len p)\<rparr>"
  using assms by (simp add: readK_def)

lemma read_waits:
  assumes "at_rest s" "isOpen s" "port s = Some r" "data (heap s r) = []"
  shows "run 2 (snd (read b off len s)) =
    s\<lparr>nextPid := nextPid s + 1, ticks := [], micro := [], in_micro := True,
      pendingRead := Some (PendingRead b off len (nextPid s))\<rparr>"
  using assms by (simp add: read_def new_promise_def run_two_await_tick rest_defs readK_waits)

subsection \<open>The body of write, and the echo\<close>

lemma writeK_completes:
  assumes "isOpen s" "port s = Some r" "promises s p = None"
  shows "promises (writeK b p s) p = Some Resolved"
    and "writeOperation (writeK b p s) = None"
    and "isOpen (writeK b p s)"
    and "port (writeK b p s) = Some r"
    and "lastWrite (writeK b p s) = Some (buffers s b)"
    and "recording (writeK b p s) =
      (if record' (heap s r) then recording s @ buffers s b else recording s)"
    and "ticks (writeK b p s) =
      (if echo (heap s r) then ticks s @ [EmitWritten (buffers s b)] else ticks s)"
    and "heap (writeK b p s) = heap s"
    and "nextPid (writeK b p s) = nextPid s"
  using assms by (simp_all add: writeK_def settle_def Let_def)

lemma step_emit:
  assumes "uncaught s = None" "micro s = []" "ticks s = [EmitWritten d]" "isOpen s"
    "port s = Some r"
  shows "step s =
    (case pendingRead s of
       None \<Rightarrow>
         s\<lparr>ticks := [], in_micro := False,
           heap := (heap s)(r := (heap s r)\<lparr>data := data (heap s r) @ d\<rparr>)\<rparr>
     | Some t \<Rightarrow>
         s\<lparr>ticks := [CallPendingRead t], in_micro := False, pendingRead := None,
           heap := (heap s)(r := (heap s r)\<lparr>data := data (heap s r) @ d\<rparr>)\<rparr>)"
  using assms by (simp add: step_def emitIfOpen_def emitData_def Let_def split: option.splits)

lemma step_emit_ready:
  assumes "uncaught s = None" "micro s = []" "ticks s = [EmitReady r']" "isOpen s"
    "port s = Some r"
  shows "step s =
    (case pendingRead s of
       None \<Rightarrow>
         s\<lparr>ticks := [], in_micro := False,
           heap := (heap s)(r := (heap s r)\<lparr>data := data (heap s r) @ readyData (heap s r')\<rparr>)\<rparr>
     | Some t \<Rightarrow>
         s\<lparr>ticks := [CallPendingRead t], in_micro := False, pendingRead := None,
           heap := (heap s)(r := (heap s r)\<lparr>data := data (heap s r) @ readyData (heap s r')\<rparr>)\<rparr>)"
  using assms by (simp add: step_def emitIfOpen_def emitData_def Let_def split: option.splits)

lemma step_emit_closed:
  assumes "uncaught s = None" "micro s = []" "\<not> isOpen s"
  shows "ticks s = [EmitReady r] \<Longrightarrow> step s = s\<lparr>ticks := [], in_micro := False\<rparr>"
    and "ticks s = [EmitWritten d] \<Longrightarrow> step s = s\<lparr>ticks := [], in_micro := False\<rparr>"
  using assms by (auto simp: step_def emitIfOpen_def)

lemma emit_closed:
  "\<not> isOpen s \<Longrightarrow> run_tick (EmitWritten d) s = s \<and> run_tick (EmitReady r) s = s"
  by (simp add: emitIfOpen_def)

text \<open>One write with echo, from an idle runtime, and its three callbacks.\<close>

lemma write_round:
  assumes "idle s" "isOpen s" "port s = Some r" "echo (heap s r)" "writeOperation s = None"
    "pendingRead s = None"
  shows "let s3 = run 3 (snd (write' (ABuffer b) s))
     in idle s3 \<and> isOpen s3 \<and> port s3 = Some r \<and> echo (heap s3 r) \<and>
        writeOperation s3 = None \<and> pendingRead s3 = None \<and> buffers s3 = buffers s \<and>
        data (heap s3 r) = data (heap s r) @ buffers s b \<and> lastWrite s3 = Some (buffers s b)"
proof -
  let ?p = "nextPid s"
  let ?s = "s\<lparr>nextPid := ?p + 1, writeOperation := Some ?p, ticks := [], micro := [],
    in_micro := True\<rparr>"
  let ?r = "run 3 (snd (write' (ABuffer b) s))"
  have w: "snd (write' (ABuffer b) s) =
     await_tick (WriteK b ?p) (s\<lparr>nextPid := ?p + 1, writeOperation := Some ?p\<rparr>)"
    using assms by (simp add: write'_def new_promise_def await_tick_def)
  define s2 where "s2 = writeK b ?p ?s"
  have r: "?r = run 1 s2"
    unfolding w s2_def using assms(1) by (simp add: run_three_await_tick idle_def)
  have s2f: "uncaught s2 = None" "micro s2 = []" "ticks s2 = [EmitWritten (buffers s b)]"
    "isOpen s2" "port s2 = Some r" "pendingRead s2 = None" "awaiting s2 = []"
    "heap s2 = heap s" "buffers s2 = buffers s" "writeOperation s2 = None"
    "lastWrite s2 = Some (buffers s b)"
    unfolding s2_def using assms
    by (simp_all add: writeK_def settle_def Let_def idle_def split: option.splits)
  have q: "\<not> quiescent s2"
    using s2f by (simp add: quiescent_def)
  have s3: "?r = s2\<lparr>ticks := [], in_micro := False,
     heap := (heap s2)(r := (heap s2 r)\<lparr>data := data (heap s2 r) @ buffers s b\<rparr>)\<rparr>"
    unfolding r using q step_emit [OF s2f(1,2,3,4,5)] s2f(6) by simp
  show ?thesis
    unfolding Let_def s3 using s2f assms(4) by (simp add: idle_def)
qed

lemma write_all_echo:
  assumes "idle s" "isOpen s" "port s = Some r" "echo (heap s r)" "writeOperation s = None"
    "pendingRead s = None"
  shows "data (heap (write_all bs s) r) = data (heap s r) @ concat (map (buffers s) bs) \<and>
     idle (write_all bs s) \<and> isOpen (write_all bs s)"
  using assms
proof (induction bs arbitrary: s)
  case Nil
  then show ?case by simp
next
  case (Cons b bs)
  let ?r = "run 3 (snd (write' (ABuffer b) s))"
  note w = write_round [OF Cons.prems, of b, unfolded Let_def]
  from w have h: "idle ?r" "isOpen ?r" "port ?r = Some r" "echo (heap ?r r)"
    "writeOperation ?r = None" "pendingRead ?r = None"
    by simp_all
  from Cons.IH [OF h] w show ?case
    by simp
qed

subsection \<open>The table of ports is read by open only\<close>

lemma reset_proj [simp]:
  "isOpen (reset s) = isOpen s" "port (reset s) = port s" "heap (reset s) = heap s"
  "buffers (reset s) = buffers s" "pendingRead (reset s) = pendingRead s"
  "promises (reset s) = promises s" "ticks (reset s) = ticks s" "micro (reset s) = micro s"
  "awaiting (reset s) = awaiting s" "uncaught (reset s) = uncaught s"
  "in_micro (reset s) = in_micro s" "writeOperation (reset s) = writeOperation s"
  "nextPid (reset s) = nextPid s" "recording (reset s) = recording s"
  "lastWrite (reset s) = lastWrite s"
  by (simp_all add: reset_def)

lemma reset_resume: "\<not> is_openK k \<Longrightarrow> resume k (reset s) = reset (resume k s)"
  by (cases k) (auto simp: cont_defs sched_defs reset_def Let_def
      split: option.splits bool.splits prod.splits outcome.splits)

lemma reset_emitData: "emitData d (reset s) = map_sum (\<lambda>e. e) reset (emitData d s)"
  by (auto simp: emitData_def reset_def Let_def split: option.splits bool.splits)

lemma reset_run_tick: "run_tick t (reset s) = reset (run_tick t s)"
  by (cases t) (auto simp: cont_defs sched_defs emitData_def reset_def Let_def
      split: option.splits bool.splits thunk.splits sum.splits)

lemma reset_upd:
  "reset (s\<lparr>ticks := a\<rparr>) = (reset s)\<lparr>ticks := a\<rparr>"
  "reset (s\<lparr>micro := b\<rparr>) = (reset s)\<lparr>micro := b\<rparr>"
  "reset (s\<lparr>in_micro := c\<rparr>) = (reset s)\<lparr>in_micro := c\<rparr>"
  by (simp_all add: reset_def)

lemma reset_step: "\<not> opens_next s \<Longrightarrow> step (reset s) = reset (step s)"
  unfolding step_def opens_next_def
  by (auto simp: reset_run_tick reset_resume reset_upd [symmetric]
      split: option.splits list.splits)

lemma quiescent_reset: "quiescent (reset s) = quiescent s"
  by (simp add: quiescent_def)

lemma no_open_opens_next: "no_open s \<Longrightarrow> \<not> opens_next s"
  by (auto simp: no_open_def opens_next_def split: option.splits list.splits)

lemma no_open_resume: "no_open s \<Longrightarrow> \<not> is_openK k \<Longrightarrow> no_open (resume k s)"
  by (cases k) (auto simp: cont_defs sched_defs no_open_def list_all_iff Let_def
      split: option.splits bool.splits prod.splits outcome.splits)

lemma no_open_run_tick: "no_open s \<Longrightarrow> \<not> wakes_open t \<Longrightarrow> no_open (run_tick t s)"
  by (cases t) (auto simp: cont_defs sched_defs emitData_def no_open_def list_all_iff Let_def
      split: option.splits bool.splits thunk.splits sum.splits)

lemma no_open_step:
  assumes n: "no_open s"
  shows "no_open (step s)"
proof -
  have a: "no_open (s\<lparr>in_micro := b\<rparr>)" for b
    using n by (simp add: no_open_def)
  have t: "ticks s = t # ts \<Longrightarrow>
    no_open (s\<lparr>ticks := ts, in_micro := b\<rparr>) \<and> no_open (s\<lparr>ticks := ts\<rparr>) \<and> \<not> wakes_open t"
    for t ts b
    using n by (simp add: no_open_def)
  have m: "micro s = k # ks \<Longrightarrow>
    no_open (s\<lparr>micro := ks, in_micro := b\<rparr>) \<and> no_open (s\<lparr>micro := ks\<rparr>) \<and> \<not> is_openK k"
    for k ks b
    using n by (simp add: no_open_def)
  show ?thesis
    unfolding step_def using n a t m
    by (auto split: option.splits list.splits intro!: no_open_resume no_open_run_tick)
qed

lemma reset_run: "no_open s \<Longrightarrow> run n (reset s) = reset (run n s)"
proof (induction n arbitrary: s)
  case 0
  show ?case by simp
next
  case (Suc n)
  have "step (reset s) = reset (step s)"
    using Suc.prems by (simp add: reset_step no_open_opens_next)
  with Suc.IH [OF no_open_step [OF Suc.prems]] show ?case
    by (simp add: quiescent_reset)
qed

lemma reset_calls:
  "read b off len (reset s) = apsnd reset (read b off len s)"
  "write' buffer (reset s) = apsnd reset (write' buffer s)"
  "flush (reset s) = apsnd reset (flush s)"
  "drain (reset s) = apsnd reset (drain s)"
  by (auto simp: call_defs sched_defs Let_def
      split: option.splits bool.splits write_arg.splits thunk.splits)

subsection \<open>Where isOpen and port change\<close>

lemma handle_resume:
  "\<not> is_openK k \<Longrightarrow> isOpen (resume k s) = isOpen s \<and> port (resume k s) = port s"
  by (cases k) (auto simp: cont_defs sched_defs Let_def
      split: option.splits bool.splits prod.splits outcome.splits)

lemma handle_run_tick: "isOpen (run_tick t s) = isOpen s \<and> port (run_tick t s) = port s"
  by (cases t) (auto simp: cont_defs sched_defs emitData_def Let_def
      split: option.splits bool.splits thunk.splits sum.splits)

lemma handle_step:
  "\<not> opens_next s \<Longrightarrow> isOpen (step s) = isOpen s \<and> port (step s) = port s"
  unfolding step_def opens_next_def
  by (auto simp: handle_run_tick handle_resume split: option.splits list.splits)

lemma handle_perform:
  assumes "a \<noteq> AClose" "\<not> (a = AStep \<and> opens_next s)"
  shows "isOpen (perform a s) = isOpen s \<and> port (perform a s) = port s"
proof (cases a)
  case AStep
  with assms show ?thesis by (simp add: handle_step)
next
  case AClose
  with assms show ?thesis by simp
qed (auto simp: call_defs sched_defs createPort_def Let_def
      split: option.splits bool.splits prod.splits sum.splits thunk.splits write_arg.splits
        options_arg.splits)

lemma handle_close: "close s = Inr s1 \<Longrightarrow> \<not> isOpen s1 \<and> port s1 = None"
  by (auto simp: close_def callPendingRead_def settle_def Let_def split: option.splits bool.splits thunk.splits)

lemma handle_openK:
  "port (openK path opts p s) = ports s path"
  "promises s p = None \<Longrightarrow> promises (openK path opts p s) p = Some Resolved \<Longrightarrow>
     isOpen (openK path opts p s) \<and> port (openK path opts p s) \<noteq> None"
  "promises (openK path opts p s) p \<noteq> Some Resolved \<Longrightarrow>
     isOpen (openK path opts p s) = isOpen s"
  by (auto simp: openK_def settle_def Let_def split: option.splits bool.splits if_splits)

subsection \<open>The states to try the methods on\<close>

lemma opened_facts:
  "at_rest opened" "isOpen opened" "port opened = Some 0" "data (heap opened 0) = []"
  "nextPid opened = 0" "promises opened 0 = None" "writeOperation opened = None"
  "pendingRead opened = None" "ports opened ''/dev/A'' = Some 0" "\<not> lock_held (heap opened 0)"
  "\<not> echo (heap opened 0)" "no_open opened"
  by (simp_all add: opened_def attach_def createPort_def init_def no_options_def options_9600_def
      rest_defs lock_held_def no_open_def Let_def)

lemma opened_echo_facts:
  "at_rest opened_echo" "isOpen opened_echo" "port opened_echo = Some 0"
  "data (heap opened_echo 0) = []" "nextPid opened_echo = 0" "promises opened_echo 0 = None"
  "writeOperation opened_echo = None" "pendingRead opened_echo = None"
  "ports opened_echo ''/dev/A'' = Some 0" "\<not> lock_held (heap opened_echo 0)"
  "echo (heap opened_echo 0)" "record' (heap opened_echo 0)"
  "readyData (heap opened_echo 0) = ''READY''" "recording opened_echo = []"
  by (simp_all add: opened_echo_def attach_def createPort_def init_def echo_record_def
      options_9600_def rest_defs lock_held_def Let_def)

lemma orphaned_facts:
  "uncaught orphaned = None" "micro orphaned = []" "ticks orphaned = []" "awaiting orphaned = []"
  "isOpen orphaned" "port orphaned = Some 0" "nextPid orphaned = 0" "promises orphaned 0 = None"
  "data (heap orphaned 0) = []" "buffers orphaned 3 = ''hi''" "writeOperation orphaned = None"
  "pendingRead orphaned = None" "ports orphaned ''/dev/A'' = None"
  by (simp_all add: orphaned_def opened_def attach_def createPort_def init_def no_options_def
      set_buffer_def reset_def Let_def)

lemma created_facts:
  "at_rest created" "\<not> isOpen created" "ports created ''/dev/A'' = Some 0"
  "\<not> lock_held (heap created 0)" "port created = None" "nextPid created = 0"
  "promises created 0 = None" "openOpt (heap created 0) = None"
  "ports created ''/dev/B'' = None"
  by (simp_all add: created_def createPort_def init_def no_options_def rest_defs lock_held_def
      Let_def)

lemma locked_out_facts:
  "at_rest locked_out" "\<not> isOpen locked_out" "port locked_out = None"
  "ports locked_out ''/dev/A'' = Some 0" "lock_held (heap locked_out 0)"
  "nextPid locked_out = 0" "promises locked_out 0 = None"
  by (simp_all add: locked_out_def new_binding_def attach_def createPort_def init_def
      no_options_def options_lock_def rest_defs lock_held_def Let_def)

lemma readable_facts:
  "at_rest readable" "isOpen readable" "port readable = Some 0"
  "data (heap readable 0) = ''ABC''" "buffers readable 3 = ''......''" "nextPid readable = 0"
  "promises readable 0 = None"
  by (simp_all add: readable_def emitData_def set_buffer_def opened_def attach_def createPort_def
      init_def no_options_def options_9600_def rest_defs Let_def)

lemma cramped_facts:
  "at_rest cramped" "isOpen cramped" "port cramped = Some 0"
  "data (heap cramped 0) = ''ABC''" "buffers cramped 3 = ''x''" "nextPid cramped = 0"
  "promises cramped 0 = None"
  by (simp_all add: cramped_def emitData_def set_buffer_def opened_def attach_def createPort_def
      init_def no_options_def options_9600_def rest_defs Let_def)

lemma echo_ab_facts:
  "at_rest echo_ab" "isOpen echo_ab" "port echo_ab = Some 0" "echo (heap echo_ab 0)"
  "record' (heap echo_ab 0)" "buffers echo_ab 7 = ''AB''" "data (heap echo_ab 0) = []"
  "nextPid echo_ab = 0" "writeOperation echo_ab = None" "pendingRead echo_ab = None"
  "recording echo_ab = []" "promises echo_ab 0 = None"
  by (simp_all add: echo_ab_def set_buffer_def opened_echo_def attach_def createPort_def
      init_def echo_record_def options_9600_def rest_defs Let_def)

lemma run_quiescent: "quiescent s \<Longrightarrow> run n s = s"
  by (cases n) simp_all

lemma lost_facts:
  "isOpen lost" "port lost = None" "pendingRead lost = Some (PendingRead 3 0 5 0)"
  "promises lost 0 = None" "promises lost 1 = Some (Rejected (PortDoesNotExist ''/dev/B''))"
  "ticks lost = []" "micro lost = []"
proof -
  let ?r = "opened\<lparr>nextPid := nextPid opened + 1, ticks := [], micro := [], in_micro := True,
      pendingRead := Some (PendingRead 3 0 5 (nextPid opened))\<rparr>"
  have r: "run 2 (snd (read 3 0 5 opened)) = ?r"
    by (rule read_waits [OF opened_facts(1-4)])
  have o: "promises opened 1 = None" "ports opened ''/dev/B'' = None" "uncaught opened = None"
    "awaiting opened = []"
    by (simp_all add: opened_def attach_def createPort_def init_def no_options_def Let_def)
  have l: "lost = openK ''/dev/B'' options_9600 (Suc 0)
     (?r\<lparr>nextPid := Suc (Suc 0), ticks := [], micro := [], in_micro := True\<rparr>)"
    unfolding lost_def r using opened_facts o
    by (simp add: open'_def new_promise_def run_two_await_tick)
  show "isOpen lost" "port lost = None" "pendingRead lost = Some (PendingRead 3 0 5 0)"
    "promises lost 0 = None" "promises lost 1 = Some (Rejected (PortDoesNotExist ''/dev/B''))"
    "ticks lost = []" "micro lost = []"
    unfolding l using opened_facts o by (simp_all add: openK_def settle_def Let_def)
qed

section \<open>The claims\<close>

text \<open>
  C1 (what the code does in place of the claim). \<^verbatim>\<open>open\<close> of an instance that is not open
  never succeeds: with a path that is not empty, a registered record that is not lock-held and
  an options object, the body after the \<^verbatim>\<open>await\<close> passes the lookup and the lock test and
  then throws "Open: binding is already open" at \<^verbatim>\<open>if (!this.isOpen || !this.port)\<close>. The
  promise is rejected, \<^verbatim>\<open>isOpen\<close> stays false and the record's \<^verbatim>\<open>openOpt\<close> is not written. This
  holds for the body run in any state and for the whole call from a runtime at rest.
\<close>

theorem open_rejects_closed_binding:
  "(\<not> isOpen s \<and> ports s path = Some r \<and> \<not> lock_held (heap s r) \<and> promises s p = None \<longrightarrow>
      (let s1 = openK path opts p s
       in promises s1 p = Some (Rejected BindingAlreadyOpen) \<and> \<not> isOpen s1 \<and>
          heap s1 = heap s)) \<and>
   (at_rest s \<and> path \<noteq> [] \<and> \<not> isOpen s \<and> ports s path = Some r \<and> \<not> lock_held (heap s r) \<longrightarrow>
      fst (open' path (Options opts) s) = Inr (nextPid s) \<and>
      (let s2 = run 2 (snd (open' path (Options opts) s))
       in promises s2 (nextPid s) = Some (Rejected BindingAlreadyOpen) \<and> \<not> isOpen s2 \<and>
          openOpt (heap s2 r) = openOpt (heap s r)))"
proof (intro conjI impI)
  assume a: "\<not> isOpen s \<and> ports s path = Some r \<and> \<not> lock_held (heap s r) \<and> promises s p = None"
  then show "let s1 = openK path opts p s
       in promises s1 p = Some (Rejected BindingAlreadyOpen) \<and> \<not> isOpen s1 \<and> heap s1 = heap s"
    using openK_closed_binding [of s path r p opts] by (simp add: Let_def)
next
  assume a: "at_rest s \<and> path \<noteq> [] \<and> \<not> isOpen s \<and> ports s path = Some r \<and>
    \<not> lock_held (heap s r)"
  then show "fst (open' path (Options opts) s) = Inr (nextPid s)"
    by (simp add: open'_def new_promise_def)
next
  assume a: "at_rest s \<and> path \<noteq> [] \<and> \<not> isOpen s \<and> ports s path = Some r \<and>
    \<not> lock_held (heap s r)"
  let ?p = "nextPid s"
  let ?s = "s\<lparr>nextPid := ?p + 1, ticks := [], micro := [], in_micro := True\<rparr>"
  have r: "run 2 (snd (open' path (Options opts) s)) = openK path opts ?p ?s"
    using a by (simp add: open'_def new_promise_def run_two_await_tick rest_defs)
  have h: "\<not> isOpen ?s" "ports ?s path = Some r" "promises ?s ?p = None"
    "\<not> lock_held (heap ?s r)"
    using a by (simp_all add: rest_defs)
  note k = openK_closed_binding [OF h, of opts]
  show "let s2 = run 2 (snd (open' path (Options opts) s))
       in promises s2 (nextPid s) = Some (Rejected BindingAlreadyOpen) \<and> \<not> isOpen s2 \<and>
          openOpt (heap s2 r) = openOpt (heap s r)"
    unfolding r Let_def using k by simp
qed

text \<open>
  The failing input: \<^verbatim>\<open>MockBinding.createPort('/dev/A')\<close>, a new instance, and
  \<^verbatim>\<open>open('/dev/A', {baudRate: 9600, lock: false})\<close>.
\<close>

theorem open_rejects_closed_binding_witness:
  "at_rest created \<and> \<not> isOpen created \<and> ports created ''/dev/A'' = Some 0 \<and>
   \<not> lock_held (heap created 0) \<and>
   fst (open' ''/dev/A'' (Options options_9600) created) = Inr 0 \<and>
   promises (run 2 (snd (open' ''/dev/A'' (Options options_9600) created))) 0 =
     Some (Rejected BindingAlreadyOpen) \<and>
   \<not> isOpen (run 2 (snd (open' ''/dev/A'' (Options options_9600) created))) \<and>
   openOpt (heap (run 2 (snd (open' ''/dev/A'' (Options options_9600) created))) 0) = None"
  using open_rejects_closed_binding [of created "''/dev/A''" 0 0 options_9600] created_facts
  by (simp add: Let_def)

text \<open>
  C2 (amended). When \<^verbatim>\<open>read(buffer, offset, length)\<close> looks at the receive buffer of an open
  instance, the receive buffer is not empty, \<^verbatim>\<open>length\<close> is not zero, and \<^verbatim>\<open>buffer\<close> has room at
  \<^verbatim>\<open>offset\<close> for the \<open>n = min length available\<close> bytes to take, then the promise of the read is
  fulfilled with \<open>n\<close>, \<open>1 \<le> n \<le> length\<close>, the \<open>n\<close> bytes at \<^verbatim>\<open>offset\<close> of \<^verbatim>\<open>buffer\<close> are the first
  \<open>n\<close> bytes of the receive buffer in their order, and the receive buffer is left with the
  bytes after them: it is shorter by exactly \<open>n\<close>. This holds for the body of \<^verbatim>\<open>read\<close> run in
  any such state and for the whole call from a runtime at rest.
\<close>

theorem read_takes_front_bytes:
  "(isOpen s \<and> port s = Some r \<and> data (heap s r) \<noteq> [] \<and> 0 < len \<and> promises s p = None \<and>
    min len (length (data (heap s r))) \<le> length (buffers s b) - off \<longrightarrow>
      (let n = min len (length (data (heap s r)));
           s2 = readK b off len p s
       in promises s2 p = Some (ResolvedNum n) \<and> 1 \<le> n \<and> n \<le> len \<and>
          take n (drop off (buffers s2 b)) = take n (data (heap s r)) \<and>
          data (heap s r) = take n (data (heap s r)) @ data (heap s2 r) \<and>
          length (data (heap s2 r)) = length (data (heap s r)) - n \<and>
          isOpen s2 \<and> port s2 = Some r)) \<and>
   (at_rest s \<and> isOpen s \<and> port s = Some r \<and> data (heap s r) \<noteq> [] \<and> 0 < len \<and>
    min len (length (data (heap s r))) \<le> length (buffers s b) - off \<longrightarrow>
      fst (read b off len s) = Inr (nextPid s) \<and>
      (let n = min len (length (data (heap s r)));
           s2 = run 2 (snd (read b off len s))
       in promises s2 (nextPid s) = Some (ResolvedNum n) \<and> 1 \<le> n \<and> n \<le> len \<and>
          take n (drop off (buffers s2 b)) = take n (data (heap s r)) \<and>
          data (heap s r) = take n (data (heap s r)) @ data (heap s2 r) \<and>
          length (data (heap s2 r)) = length (data (heap s r)) - n \<and>
          isOpen s2 \<and> port s2 = Some r))"
proof (intro conjI impI)
  assume a: "isOpen s \<and> port s = Some r \<and> data (heap s r) \<noteq> [] \<and> 0 < len \<and>
    promises s p = None \<and> min len (length (data (heap s r))) \<le> length (buffers s b) - off"
  then show "let n = min len (length (data (heap s r)));
           s2 = readK b off len p s
       in promises s2 p = Some (ResolvedNum n) \<and> 1 \<le> n \<and> n \<le> len \<and>
          take n (drop off (buffers s2 b)) = take n (data (heap s r)) \<and>
          data (heap s r) = take n (data (heap s r)) @ data (heap s2 r) \<and>
          length (data (heap s2 r)) = length (data (heap s r)) - n \<and>
          isOpen s2 \<and> port s2 = Some r"
    by (intro readK_front) simp_all
next
  assume a: "at_rest s \<and> isOpen s \<and> port s = Some r \<and> data (heap s r) \<noteq> [] \<and> 0 < len \<and>
    min len (length (data (heap s r))) \<le> length (buffers s b) - off"
  show "fst (read b off len s) = Inr (nextPid s)"
    by (simp add: read_def new_promise_def)
next
  assume a: "at_rest s \<and> isOpen s \<and> port s = Some r \<and> data (heap s r) \<noteq> [] \<and> 0 < len \<and>
    min len (length (data (heap s r))) \<le> length (buffers s b) - off"
  let ?p = "nextPid s"
  let ?s = "s\<lparr>nextPid := ?p + 1, ticks := [], micro := [], in_micro := True\<rparr>"
  have r: "run 2 (snd (read b off len s)) = readK b off len ?p ?s"
    using a by (simp add: read_def new_promise_def run_two_await_tick rest_defs)
  have h: "isOpen ?s" "port ?s = Some r" "data (heap ?s r) \<noteq> []" "0 < len"
    "promises ?s ?p = None"
    "min len (length (data (heap ?s r))) \<le> length (buffers ?s b) - off"
    using a by (simp_all add: rest_defs)
  from readK_front [OF h]
  show "let n = min len (length (data (heap s r)));
           s2 = run 2 (snd (read b off len s))
       in promises s2 (nextPid s) = Some (ResolvedNum n) \<and> 1 \<le> n \<and> n \<le> len \<and>
          take n (drop off (buffers s2 b)) = take n (data (heap s r)) \<and>
          data (heap s r) = take n (data (heap s r)) @ data (heap s2 r) \<and>
          length (data (heap s2 r)) = length (data (heap s r)) - n \<and>
          isOpen s2 \<and> port s2 = Some r"
    unfolding r Let_def by simp
qed

text \<open>
  The receive buffer holds "ABC" and the caller reads two bytes to offset 1 of a buffer of six:
  the read returns 2, the buffer holds "AB" at 1 and 2, and "C" stays.
\<close>

theorem read_takes_front_bytes_witness:
  "at_rest readable \<and> isOpen readable \<and> port readable = Some 0 \<and>
   data (heap readable 0) = ''ABC'' \<and> buffers readable 3 = ''......'' \<and>
   fst (read 3 1 2 readable) = Inr 0 \<and>
   promises (run 2 (snd (read 3 1 2 readable))) 0 = Some (ResolvedNum 2) \<and>
   take 2 (drop 1 (buffers (run 2 (snd (read 3 1 2 readable))) 3)) = ''AB'' \<and>
   data (heap (run 2 (snd (read 3 1 2 readable))) 0) = ''C''"
proof -
  note f = readable_facts
  have h: "at_rest readable \<and> isOpen readable \<and> port readable = Some 0 \<and>
    data (heap readable 0) \<noteq> [] \<and> 0 < (2::nat) \<and>
    min 2 (length (data (heap readable 0))) \<le> length (buffers readable 3) - 1"
    using f by simp
  have m: "min 2 (length (data (heap readable 0))) = 2" "take 2 (data (heap readable 0)) = ''AB''"
    using f by simp_all
  define s2 where "s2 = run 2 (snd (read 3 1 2 readable))"
  from read_takes_front_bytes [of readable 0 2 0 3 1, THEN conjunct2, THEN mp, OF h]
  have t: "fst (read 3 1 2 readable) = Inr 0" "promises s2 0 = Some (ResolvedNum 2)"
    "take 2 (drop 1 (buffers s2 3)) = ''AB''" "data (heap readable 0) = ''AB'' @ data (heap s2 0)"
    unfolding Let_def m s2_def [symmetric] f(6) by simp_all
  from t(4) have d: "data (heap s2 0) = ''C''"
    unfolding f(4) by simp
  show ?thesis
    unfolding s2_def [symmetric] using f(1-5) t(1-3) d by simp
qed

text \<open>
  C2 as stated fails where \<^verbatim>\<open>buffer\<close> is too small. The receive buffer holds "ABC" and the
  caller reads up to five bytes into a buffer of one byte: \<^verbatim>\<open>slice(0, 5)\<close> takes the three bytes,
  \<^verbatim>\<open>copy\<close> copies one and returns 1, and \<^verbatim>\<open>slice(5)\<close> leaves the receive buffer empty. The read
  returns 1 and the receive buffer is shorter by 3: "B" and "C" are lost.
\<close>

theorem read_overruns_small_buffer:
  "at_rest cramped \<and> isOpen cramped \<and> port cramped = Some 0 \<and>
   data (heap cramped 0) = ''ABC'' \<and> buffers cramped 3 = ''x'' \<and>
   fst (read 3 0 5 cramped) = Inr 0 \<and>
   promises (run 2 (snd (read 3 0 5 cramped))) 0 = Some (ResolvedNum 1) \<and>
   buffers (run 2 (snd (read 3 0 5 cramped))) 3 = ''A'' \<and>
   data (heap (run 2 (snd (read 3 0 5 cramped))) 0) = [] \<and>
   length (data (heap cramped 0)) -
     length (data (heap (run 2 (snd (read 3 0 5 cramped))) 0)) = 3"
proof -
  note c = cramped_facts
  let ?p = "nextPid cramped"
  let ?s = "cramped\<lparr>nextPid := ?p + 1, ticks := [], micro := [], in_micro := True\<rparr>"
  have r: "run 2 (snd (read 3 0 5 cramped)) = readK 3 0 5 0 ?s"
    using c by (simp add: read_def new_promise_def run_two_await_tick rest_defs)
  have k: "promises (readK 3 0 5 0 ?s) 0 = Some (ResolvedNum 1)"
    "buffers (readK 3 0 5 0 ?s) 3 = ''A''" "data (heap (readK 3 0 5 0 ?s) 0) = []"
    using c by (simp_all add: readK_def copy_def settle_def rest_defs Let_def)
  have f: "fst (read 3 0 5 cramped) = Inr 0"
    using c by (simp add: read_def new_promise_def)
  show ?thesis unfolding r using c k f by simp
qed

text \<open>
  C3 (amended). On an instance that is open (\<^verbatim>\<open>isOpen\<close> true and \<^verbatim>\<open>port\<close> set) with a closure
  in \<^verbatim>\<open>pendingRead\<close>, \<^verbatim>\<open>close()\<close> does not throw; it leaves the instance closed and calls the
  closure with the error "port is closed": the promise of the pending read is settled
  afterwards, rejected with that error if it was pending. No other promise is touched.
\<close>

theorem close_rejects_pending_read:
  assumes "isOpen s" "port s = Some r" "pendingRead s = Some (PendingRead b off len p)"
  shows "case close s of
           Inl e \<Rightarrow> False
         | Inr s1 \<Rightarrow>
             \<not> isOpen s1 \<and> port s1 = None \<and> promises s1 p \<noteq> None \<and>
             (promises s p = None \<longrightarrow> promises s1 p = Some (Rejected PortIsClosed)) \<and>
             (\<forall>q. q \<noteq> p \<longrightarrow> promises s1 q = promises s q)"
  using assms by (auto simp: close_def callPendingRead_def settle_def Let_def split: option.splits)

text \<open>
  A read of an open instance with nothing to read waits in \<^verbatim>\<open>pendingRead\<close>; \<^verbatim>\<open>close\<close> rejects
  it.
\<close>

theorem close_rejects_pending_read_witness:
  "isOpen (run 2 (snd (read 3 0 5 opened))) \<and>
   port (run 2 (snd (read 3 0 5 opened))) = Some 0 \<and>
   pendingRead (run 2 (snd (read 3 0 5 opened))) = Some (PendingRead 3 0 5 0) \<and>
   promises (run 2 (snd (read 3 0 5 opened))) 0 = None \<and>
   (case close (run 2 (snd (read 3 0 5 opened))) of
      Inl e \<Rightarrow> False
    | Inr s1 \<Rightarrow> \<not> isOpen s1 \<and> port s1 = None \<and> promises s1 0 = Some (Rejected PortIsClosed))"
proof -
  let ?s = "opened\<lparr>nextPid := nextPid opened + 1, ticks := [], micro := [], in_micro := True,
      pendingRead := Some (PendingRead 3 0 5 (nextPid opened))\<rparr>"
  have r: "run 2 (snd (read 3 0 5 opened)) = ?s"
    by (rule read_waits [OF opened_facts(1-4)])
  have h: "isOpen ?s" "port ?s = Some 0" "pendingRead ?s = Some (PendingRead 3 0 5 0)"
    "promises ?s 0 = None"
    using opened_facts by simp_all
  show ?thesis
    unfolding r using close_rejects_pending_read [OF h(1-3)] h
    by (auto split: sum.splits)
qed

text \<open>
  C3 as stated fails on an instance that has a closure in \<^verbatim>\<open>pendingRead\<close> and is not open. The
  instance is open and a read waits. The caller calls \<^verbatim>\<open>open\<close> with a path that was never
  created: the body stores \<^verbatim>\<open>undefined\<close> in \<^verbatim>\<open>this.port\<close> and is rejected, \<^verbatim>\<open>isOpen\<close> stays true
  and the closure stays in \<^verbatim>\<open>pendingRead\<close>. Now \<^verbatim>\<open>close()\<close> throws "already closed" at its first
  test and never calls the closure: the runtime is at rest and the promise of the read is
  still pending.
\<close>

theorem close_leaves_read_pending:
  "isOpen (run 2 (snd (read 3 0 5 opened))) \<and>
   port (run 2 (snd (read 3 0 5 opened))) = Some 0 \<and>
   pendingRead (run 2 (snd (read 3 0 5 opened))) = Some (PendingRead 3 0 5 0) \<and>
   pendingRead lost = Some (PendingRead 3 0 5 0) \<and> promises lost 0 = None \<and>
   promises lost 1 = Some (Rejected (PortDoesNotExist ''/dev/B'')) \<and>
   isOpen lost \<and> port lost = None \<and>
   close lost = Inl AlreadyClosed \<and> perform AClose lost = lost \<and>
   quiescent (perform AClose lost) \<and>
   promises (run 20 (perform AClose lost)) 0 = None"
proof -
  let ?r = "opened\<lparr>nextPid := nextPid opened + 1, ticks := [], micro := [], in_micro := True,
      pendingRead := Some (PendingRead 3 0 5 (nextPid opened))\<rparr>"
  have r: "run 2 (snd (read 3 0 5 opened)) = ?r"
    by (rule read_waits [OF opened_facts(1-4)])
  have b: "isOpen ?r" "port ?r = Some 0" "pendingRead ?r = Some (PendingRead 3 0 5 0)"
    using opened_facts by simp_all
  note l = lost_facts
  have c: "close lost = Inl AlreadyClosed"
    using l by (simp add: close_def)
  have p: "perform AClose lost = lost"
    by (simp add: c)
  have q: "quiescent lost"
    using l by (simp add: quiescent_def)
  have n: "run 20 lost = lost"
    using q by (rule run_quiescent)
  show ?thesis
    unfolding r p n using b l c q by simp
qed

text \<open>
  C4. On an open instance, \<^verbatim>\<open>write(buffer)\<close> while \<^verbatim>\<open>writeOperation\<close> holds a write throws
  "Overlapping writes ..." and changes nothing. The body of a write that runs on an open
  instance fulfils the promise of the write and sets \<^verbatim>\<open>writeOperation\<close> back to \<^verbatim>\<open>null\<close>. So,
  from a runtime at rest: a first write is taken and is in flight, a second one before the
  callbacks of the first is rejected and leaves the state as it is, and after the two callbacks
  of the first write (the wake-up and the body) its promise is fulfilled, the marker is
  cleared, and a third write is taken as the first was.
\<close>

theorem overlapping_write_rejected:
  "(isOpen s \<and> writeOperation s = Some w \<longrightarrow>
      write' (ABuffer b) s = (Inl OverlappingWrites, s)) \<and>
   (isOpen s \<and> port s = Some r \<and> promises s p = None \<longrightarrow>
      promises (writeK b p s) p = Some Resolved \<and> writeOperation (writeK b p s) = None) \<and>
   (at_rest s \<and> isOpen s \<and> port s = Some r \<and> writeOperation s = None \<longrightarrow>
      (let c1 = write' (ABuffer b1) s; s1 = snd c1; s2 = run 2 s1
       in fst c1 = Inr (nextPid s) \<and> writeOperation s1 = Some (nextPid s) \<and>
          promises s1 (nextPid s) = None \<and>
          write' (ABuffer b2) s1 = (Inl OverlappingWrites, s1) \<and>
          promises s2 (nextPid s) = Some Resolved \<and> writeOperation s2 = None \<and>
          fst (write' (ABuffer b3) s2) = Inr (nextPid s2) \<and>
          writeOperation (snd (write' (ABuffer b3) s2)) = Some (nextPid s2)))"
proof (intro conjI impI)
  assume "isOpen s \<and> writeOperation s = Some w"
  then show "write' (ABuffer b) s = (Inl OverlappingWrites, s)"
    by (simp add: write'_def)
next
  assume a: "isOpen s \<and> port s = Some r \<and> promises s p = None"
  then show "promises (writeK b p s) p = Some Resolved"
    by (simp add: writeK_completes(1) [of s r p b])
  from a show "writeOperation (writeK b p s) = None"
    by (simp add: writeK_completes(2) [of s r p b])
next
  assume a: "at_rest s \<and> isOpen s \<and> port s = Some r \<and> writeOperation s = None"
  let ?p = "nextPid s"
  let ?s = "s\<lparr>nextPid := ?p + 1, writeOperation := Some ?p, ticks := [], micro := [],
    in_micro := True\<rparr>"
  define s1 where "s1 = snd (write' (ABuffer b1) s)"
  have s1: "s1 = await_tick (WriteK b1 ?p) (s\<lparr>nextPid := ?p + 1, writeOperation := Some ?p\<rparr>)"
    using a by (simp add: s1_def write'_def new_promise_def await_tick_def)
  have c: "fst (write' (ABuffer b1) s) = Inr ?p"
    using a by (simp add: write'_def new_promise_def)
  have f1: "writeOperation s1 = Some ?p" "promises s1 ?p = None" "isOpen s1"
    using a unfolding s1 by (simp_all add: await_tick_def rest_defs)
  have o: "write' (ABuffer b2) s1 = (Inl OverlappingWrites, s1)"
    using f1 by (simp add: write'_def)
  define s2 where "s2 = run 2 s1"
  have r: "s2 = writeK b1 ?p ?s"
    unfolding s2_def s1 using a by (simp add: run_two_await_tick rest_defs)
  have h: "isOpen ?s" "port ?s = Some r" "promises ?s ?p = None"
    using a by (simp_all add: rest_defs)
  note k = writeK_completes [OF h, of b1, folded r]
  have w3: "fst (write' (ABuffer b3) s2) = Inr (nextPid s2)"
    "writeOperation (snd (write' (ABuffer b3) s2)) = Some (nextPid s2)"
    using k(2,3) by (simp_all add: write'_def new_promise_def await_tick_def)
  show "let c1 = write' (ABuffer b1) s; s1 = snd c1; s2 = run 2 s1
       in fst c1 = Inr (nextPid s) \<and> writeOperation s1 = Some (nextPid s) \<and>
          promises s1 (nextPid s) = None \<and>
          write' (ABuffer b2) s1 = (Inl OverlappingWrites, s1) \<and>
          promises s2 (nextPid s) = Some Resolved \<and> writeOperation s2 = None \<and>
          fst (write' (ABuffer b3) s2) = Inr (nextPid s2) \<and>
          writeOperation (snd (write' (ABuffer b3) s2)) = Some (nextPid s2)"
    unfolding Let_def s1_def [symmetric] s2_def [symmetric]
    using c f1 o k(1,2) w3 by simp
qed

theorem overlapping_write_rejected_witness:
  "at_rest opened \<and> isOpen opened \<and> port opened = Some 0 \<and> writeOperation opened = None \<and>
   fst (write' (ABuffer 3) opened) = Inr 0 \<and>
   writeOperation (snd (write' (ABuffer 3) opened)) = Some 0 \<and>
   write' (ABuffer 4) (snd (write' (ABuffer 3) opened)) =
     (Inl OverlappingWrites, snd (write' (ABuffer 3) opened)) \<and>
   promises (run 2 (snd (write' (ABuffer 3) opened))) 0 = Some Resolved \<and>
   writeOperation (run 2 (snd (write' (ABuffer 3) opened))) = None \<and>
   fst (write' (ABuffer 5) (run 2 (snd (write' (ABuffer 3) opened)))) =
     Inr (nextPid (run 2 (snd (write' (ABuffer 3) opened))))"
proof -
  let ?s1 = "snd (write' (ABuffer 3) opened)"
  have s1: "isOpen ?s1 \<and> writeOperation ?s1 = Some 0"
    using opened_facts by (simp add: write'_def new_promise_def await_tick_def)
  show ?thesis
    using overlapping_write_rejected [of opened 0 3 0 0 3 4 5]
      overlapping_write_rejected [of ?s1 0 4 0 0 3 4 5] s1 opened_facts
    by (simp add: Let_def)
qed

text \<open>
  C5 (amended). On a record created with \<^verbatim>\<open>echo\<close>: an \<^verbatim>\<open>open\<close> that succeeds schedules one
  callback for \<^verbatim>\<open>readyData\<close> and appends nothing itself; the callback, run while the instance is
  open, appends \<^verbatim>\<open>readyData\<close> to the receive buffer and leaves no such callback behind, and run
  after a \<^verbatim>\<open>close\<close> it appends nothing. Writes made one after the other on an instance that
  stays open, with no read waiting, each given its three callbacks, leave the receive buffer
  extended by the bytes of the writes in the order of the writes. In any state, the body of a
  write on an open instance puts the callback of its echo, with the bytes copied, at the end
  of the \<^verbatim>\<open>nextTick\<close> queue, and that callback, run while the instance is open, appends the
  bytes at the end of the receive buffer; run when the instance is not open it drops them, and
  they never reach the receive buffer.
  (An \<^verbatim>\<open>open\<close> succeeds only where \<^verbatim>\<open>isOpen\<close> is set beforehand, by the test that C1 is about.)
\<close>

theorem echo_in_write_order:
  "(at_rest s \<and> path \<noteq> [] \<and> ports s path = Some r \<and> \<not> lock_held (heap s r) \<and>
    echo (heap s r) \<and> isOpen s \<longrightarrow>
      (let s2 = run 2 (snd (open' path (Options opts) s))
       in promises s2 (nextPid s) = Some Resolved \<and> ticks s2 = [EmitReady r] \<and>
          micro s2 = [] \<and> data (heap s2 r) = data (heap s r) \<and>
          data (heap (step s2) r) = data (heap s r) @ readyData (heap s r) \<and>
          ticks (step s2) =
            (case pendingRead s of None \<Rightarrow> [] | Some t \<Rightarrow> [CallPendingRead t]) \<and>
          micro (step s2) = [] \<and>
          (case close s2 of
             Inl e \<Rightarrow> False
           | Inr s3 \<Rightarrow> step s3 = s3\<lparr>ticks := [], in_micro := False\<rparr>))) \<and>
   (idle s \<and> isOpen s \<and> port s = Some r \<and> echo (heap s r) \<and> writeOperation s = None \<and>
    pendingRead s = None \<longrightarrow>
      data (heap (write_all bs s) r) = data (heap s r) @ concat (map (buffers s) bs) \<and>
      idle (write_all bs s) \<and> isOpen (write_all bs s)) \<and>
   (isOpen s \<and> port s = Some r \<and> echo (heap s r) \<longrightarrow>
      ticks (writeK b p s) = ticks s @ [EmitWritten (buffers s b)]) \<and>
   (isOpen s \<and> port s = Some r \<longrightarrow>
      data (heap (run_tick (EmitWritten d) s) r) = data (heap s r) @ d) \<and>
   (\<not> isOpen s \<longrightarrow> run_tick (EmitWritten d) s = s \<and> run_tick (EmitReady r) s = s)"
proof (intro conjI impI)
  assume "isOpen s \<and> port s = Some r \<and> echo (heap s r)"
  then show "ticks (writeK b p s) = ticks s @ [EmitWritten (buffers s b)]"
    by (simp add: writeK_def settle_def Let_def split: option.splits)
next
  assume "isOpen s \<and> port s = Some r"
  then show "data (heap (run_tick (EmitWritten d) s) r) = data (heap s r) @ d"
    by (simp add: emitIfOpen_def emitData_def Let_def split: option.splits)
next
  assume a: "at_rest s \<and> path \<noteq> [] \<and> ports s path = Some r \<and> \<not> lock_held (heap s r) \<and>
    echo (heap s r) \<and> isOpen s"
  let ?p = "nextPid s"
  let ?s = "s\<lparr>nextPid := ?p + 1, ticks := [], micro := [], in_micro := True\<rparr>"
  define s2 where "s2 = openK path opts ?p ?s"
  have r: "run 2 (snd (open' path (Options opts) s)) = s2"
    unfolding s2_def using a
    by (simp add: open'_def new_promise_def run_two_await_tick rest_defs)
  have h: "isOpen ?s" "ports ?s path = Some r" "\<not> lock_held (heap ?s r)"
    "promises ?s ?p = None" "awaiting ?s = []"
    using a by (simp_all add: rest_defs)
  note k = openK_succeeds [OF h, of opts, folded s2_def, unfolded Let_def]
  have f: "promises s2 ?p = Some Resolved" "isOpen s2" "port s2 = Some r"
    "data (heap s2 r) = data (heap s r)" "readyData (heap s2 r) = readyData (heap s r)"
    "ticks s2 = [EmitReady r]" "micro s2 = []" "uncaught s2 = None"
    "pendingRead s2 = pendingRead s" "awaiting s2 = []"
    using k a by (simp_all add: rest_defs)
  note st = step_emit_ready [OF f(8,7,6,2,3)]
  have e: "data (heap (step s2) r) = data (heap s r) @ readyData (heap s r)"
    "ticks (step s2) = (case pendingRead s of None \<Rightarrow> [] | Some t \<Rightarrow> [CallPendingRead t])"
    "micro (step s2) = []"
    unfolding st using f by (simp_all split: option.splits)
  have c: "case close s2 of
      Inl e \<Rightarrow> False
    | Inr s3 \<Rightarrow> step s3 = s3\<lparr>ticks := [], in_micro := False\<rparr>"
  proof (cases "close s2")
    case (Inl e)
    then show ?thesis
      using f by (simp add: close_def callPendingRead_def Let_def split: option.splits thunk.splits)
  next
    case (Inr s3)
    then have "uncaught s3 = None" "micro s3 = []" "\<not> isOpen s3" "ticks s3 = [EmitReady r]"
      using f by (auto simp: close_def callPendingRead_def settle_def Let_def split: option.splits thunk.splits)
    then have "step s3 = s3\<lparr>ticks := [], in_micro := False\<rparr>"
      by (rule step_emit_closed(1))
    with Inr show ?thesis by simp
  qed
  show "let s2 = run 2 (snd (open' path (Options opts) s))
       in promises s2 (nextPid s) = Some Resolved \<and> ticks s2 = [EmitReady r] \<and>
          micro s2 = [] \<and> data (heap s2 r) = data (heap s r) \<and>
          data (heap (step s2) r) = data (heap s r) @ readyData (heap s r) \<and>
          ticks (step s2) =
            (case pendingRead s of None \<Rightarrow> [] | Some t \<Rightarrow> [CallPendingRead t]) \<and>
          micro (step s2) = [] \<and>
          (case close s2 of
             Inl e \<Rightarrow> False
           | Inr s3 \<Rightarrow> step s3 = s3\<lparr>ticks := [], in_micro := False\<rparr>)"
    unfolding r Let_def using f e c by simp
next
  assume a: "idle s \<and> isOpen s \<and> port s = Some r \<and> echo (heap s r) \<and>
    writeOperation s = None \<and> pendingRead s = None"
  then have w: "data (heap (write_all bs s) r) = data (heap s r) @ concat (map (buffers s) bs) \<and>
     idle (write_all bs s) \<and> isOpen (write_all bs s)"
    by (intro write_all_echo) simp_all
  from w show "data (heap (write_all bs s) r) = data (heap s r) @ concat (map (buffers s) bs)"
    by simp
  from w show "idle (write_all bs s)" by simp
  from w show "isOpen (write_all bs s)" by simp
next
  assume "\<not> isOpen s"
  then show "run_tick (EmitWritten d) s = s" "run_tick (EmitReady r) s = s"
    by (simp_all add: emitIfOpen_def)
qed

text \<open>
  An instance open on a record with \<^verbatim>\<open>echo\<close>: \<^verbatim>\<open>open\<close> gives "READY" once; the writes of "AB"
  and of "CD" give "ABCD"; on an instance that is not open the callback of an echo does
  nothing.
\<close>

theorem echo_in_write_order_witness:
  "at_rest opened_echo \<and> isOpen opened_echo \<and> echo (heap opened_echo 0) \<and>
   promises (run 2 (snd (open' ''/dev/A'' (Options options_9600) opened_echo))) 0 =
     Some Resolved \<and>
   data (heap (run 2 (snd (open' ''/dev/A'' (Options options_9600) opened_echo))) 0) = [] \<and>
   data (heap (step (run 2 (snd (open' ''/dev/A'' (Options options_9600) opened_echo)))) 0) =
     ''READY'' \<and>
   ticks (step (run 2 (snd (open' ''/dev/A'' (Options options_9600) opened_echo)))) = [] \<and>
   data (heap (write_all [7, 8] (set_buffer 8 ''CD'' (set_buffer 7 ''AB'' opened_echo))) 0) =
     ''ABCD'' \<and>
   ticks (writeK 7 0 (set_buffer 8 ''CD'' (set_buffer 7 ''AB'' opened_echo))) =
     [EmitWritten ''AB''] \<and>
   data (heap (run_tick (EmitWritten ''AB'')
     (set_buffer 8 ''CD'' (set_buffer 7 ''AB'' opened_echo))) 0) = ''AB'' \<and>
   \<not> isOpen created \<and> run_tick (EmitWritten ''AB'') created = created"
proof -
  let ?w = "set_buffer 8 ''CD'' (set_buffer 7 ''AB'' opened_echo)"
  have w: "idle ?w" "isOpen ?w" "port ?w = Some 0" "echo (heap ?w 0)" "writeOperation ?w = None"
    "pendingRead ?w = None" "data (heap ?w 0) = []" "buffers ?w 7 = ''AB''"
    "buffers ?w 8 = ''CD''" "ticks ?w = []"
    using opened_echo_facts by (simp_all add: set_buffer_def rest_defs)
  show ?thesis
    using echo_in_write_order [of opened_echo "''/dev/A''" 0 options_9600 "[]" 7 0 "''AB''"]
      echo_in_write_order [of ?w "[]" 0 options_9600 "[7, 8]" 7 0 "''AB''"]
      echo_in_write_order [of created "[]" 0 options_9600 "[]" 7 0 "''AB''"]
      opened_echo_facts created_facts w
    by (simp add: Let_def)
qed

text \<open>
  C5 as stated fails for a write that completes before a \<^verbatim>\<open>close\<close>. The instance is open on a
  record with \<^verbatim>\<open>echo\<close> and the caller writes "AB". After the two callbacks of the write its
  promise is fulfilled and the echo is scheduled. The caller closes the instance (from the
  reaction to that promise, a microtask, which runs before the \<^verbatim>\<open>nextTick\<close> queue). The callback
  of the echo finds the instance closed: the runtime comes to rest with an empty receive
  buffer, and the bytes of the completed write have never been in it.
\<close>

theorem echo_dropped_after_close:
  "at_rest echo_ab \<and> isOpen echo_ab \<and> echo (heap echo_ab 0) \<and> buffers echo_ab 7 = ''AB'' \<and>
   data (heap echo_ab 0) = [] \<and>
   fst (write' (ABuffer 7) echo_ab) = Inr 0 \<and>
   promises (run 2 (snd (write' (ABuffer 7) echo_ab))) 0 = Some Resolved \<and>
   data (heap (run 2 (snd (write' (ABuffer 7) echo_ab))) 0) = [] \<and>
   ticks (run 2 (snd (write' (ABuffer 7) echo_ab))) = [EmitWritten ''AB''] \<and>
   close (run 2 (snd (write' (ABuffer 7) echo_ab))) =
     Inr (perform AClose (run 2 (snd (write' (ABuffer 7) echo_ab)))) \<and>
   data (heap (perform AClose (run 2 (snd (write' (ABuffer 7) echo_ab)))) 0) = [] \<and>
   data (heap (step (perform AClose (run 2 (snd (write' (ABuffer 7) echo_ab))))) 0) = [] \<and>
   ticks (step (perform AClose (run 2 (snd (write' (ABuffer 7) echo_ab))))) = [] \<and>
   micro (step (perform AClose (run 2 (snd (write' (ABuffer 7) echo_ab))))) = [] \<and>
   quiescent (step (perform AClose (run 2 (snd (write' (ABuffer 7) echo_ab)))))"
proof -
  note c = echo_ab_facts
  let ?p = "nextPid echo_ab"
  let ?s = "echo_ab\<lparr>nextPid := ?p + 1, writeOperation := Some ?p, ticks := [], micro := [],
    in_micro := True\<rparr>"
  define s2 where "s2 = writeK 7 0 ?s"
  have f: "fst (write' (ABuffer 7) echo_ab) = Inr 0"
    using c by (simp add: write'_def new_promise_def)
  have w: "snd (write' (ABuffer 7) echo_ab) =
     await_tick (WriteK 7 0) (echo_ab\<lparr>nextPid := ?p + 1, writeOperation := Some ?p\<rparr>)"
    using c by (simp add: write'_def new_promise_def await_tick_def)
  have r: "run 2 (snd (write' (ABuffer 7) echo_ab)) = s2"
    unfolding w s2_def using c by (simp add: run_two_await_tick rest_defs)
  have k: "promises s2 0 = Some Resolved" "data (heap s2 0) = []"
    "ticks s2 = [EmitWritten ''AB'']" "isOpen s2" "port s2 = Some 0" "pendingRead s2 = None"
    "uncaught s2 = None" "micro s2 = []"
    unfolding s2_def using c by (simp_all add: writeK_def settle_def rest_defs Let_def)
  define s3 where "s3 = s2\<lparr>heap := (heap s2)(0 := (heap s2 0)\<lparr>openOpt := None, data := []\<rparr>),
    port := None, this_serialNumber := None, isOpen := False\<rparr>"
  have cl: "close s2 = Inr s3"
    using k by (simp add: close_def s3_def Let_def)
  have p: "perform AClose s2 = s3"
    by (simp add: cl)
  have k3: "uncaught s3 = None" "micro s3 = []" "\<not> isOpen s3" "ticks s3 = [EmitWritten ''AB'']"
    "data (heap s3 0) = []"
    using k by (simp_all add: s3_def)
  have st: "step s3 = s3\<lparr>ticks := [], in_micro := False\<rparr>"
    using k3(1-4) by (rule step_emit_closed(2))
  show ?thesis
    unfolding r p st using c f k k3 cl by (simp add: quiescent_def)
qed

text \<open>
  C6 (amended). \<^verbatim>\<open>MockBinding.reset()\<close> empties the table and nothing else: an instance that
  is open keeps \<^verbatim>\<open>isOpen\<close>, its reference \<^verbatim>\<open>port\<close> and the record behind it. \<^verbatim>\<open>read\<close>, \<^verbatim>\<open>write\<close>,
  \<^verbatim>\<open>emitData\<close>, \<^verbatim>\<open>flush\<close> and \<^verbatim>\<open>drain\<close> called after the reset return what they return without
  it and leave the state they leave without it, but for the empty table; and as long as no
  \<^verbatim>\<open>open\<close> is under way the same holds for every run of the runtime. They go on working on the
  record that the table no longer holds. Only the body of an \<^verbatim>\<open>open\<close> sees the reset: it is
  rejected with "Port does not exist".
\<close>

theorem reset_leaves_instance_working:
  "isOpen (reset s) = isOpen s \<and> port (reset s) = port s \<and> heap (reset s) = heap s \<and>
   read b off len (reset s) = apsnd reset (read b off len s) \<and>
   write' buffer (reset s) = apsnd reset (write' buffer s) \<and>
   emitData d (reset s) = map_sum (\<lambda>e. e) reset (emitData d s) \<and>
   flush (reset s) = apsnd reset (flush s) \<and>
   drain (reset s) = apsnd reset (drain s) \<and>
   (no_open s \<longrightarrow> run n (reset s) = reset (run n s)) \<and>
   (promises s p = None \<longrightarrow>
      promises (openK path opts p (reset s)) p = Some (Rejected (PortDoesNotExist path)))"
proof -
  have o: "promises s p = None \<Longrightarrow>
    promises (openK path opts p (reset s)) p = Some (Rejected (PortDoesNotExist path))"
    by (simp add: openK_def settle_def reset_def)
  show ?thesis
    using o by (simp add: reset_calls reset_emitData reset_run)
qed

text \<open>
  The instance is open, the caller calls \<^verbatim>\<open>flush\<close> and then the table is reset: the runtime ends
  in the state it ends in without the reset, the table apart, and the flush is fulfilled.
\<close>

theorem reset_leaves_instance_working_witness:
  "no_open (snd (flush opened)) \<and>
   run 2 (reset (snd (flush opened))) = reset (run 2 (snd (flush opened))) \<and>
   flush (reset opened) = apsnd reset (flush opened) \<and>
   isOpen (reset opened) \<and> port (reset opened) = Some 0 \<and>
   fst (flush (reset opened)) = Inr 0 \<and>
   promises (run 2 (reset (snd (flush opened)))) 0 = Some Resolved \<and>
   promises opened 0 = None \<and>
   promises (openK ''/dev/A'' options_9600 0 (reset opened)) 0 =
     Some (Rejected (PortDoesNotExist ''/dev/A''))"
proof -
  have f: "flush opened = (Inr 0, await_tick (FlushK 0) (opened\<lparr>nextPid := 1\<rparr>))"
    using opened_facts by (simp add: flush_def new_promise_def)
  have n: "no_open (snd (flush opened))"
    using opened_facts(12) by (simp add: f await_tick_def no_open_def)
  have r: "run 2 (snd (flush opened)) =
    flushK 0 (opened\<lparr>nextPid := 1, ticks := [], micro := [], in_micro := True\<rparr>)"
    using opened_facts by (simp add: f run_two_await_tick rest_defs)
  have p: "promises (run 2 (snd (flush opened))) 0 = Some Resolved"
    unfolding r using opened_facts by (simp add: flushK_def settle_def)
  show ?thesis
    using reset_leaves_instance_working [of opened 0 0 0 NotABuffer "[]" 2 0 "''/dev/A''"
        options_9600]
      reset_leaves_instance_working [of "snd (flush opened)" 0 0 0 NotABuffer "[]" 2 0
        "''/dev/A''" options_9600]
      n p opened_facts
    by (simp add: f)
qed

text \<open>
  C6 as stated fails. The instance is open on the record at \<open>0\<close> when the table is reset. After
  the reset \<^verbatim>\<open>emitData\<close> appends to the record, a \<^verbatim>\<open>read\<close> returns the bytes, and a \<^verbatim>\<open>write\<close>, a
  \<^verbatim>\<open>flush\<close> and a \<^verbatim>\<open>drain\<close> are fulfilled: none fails.
\<close>

theorem orphaned_instance_still_works:
  "ports orphaned ''/dev/A'' = None \<and> isOpen orphaned \<and> port orphaned = Some 0 \<and>
   emitData ''ok'' orphaned = Inr (perform (AEmitData ''ok'') orphaned) \<and>
   data (heap (perform (AEmitData ''ok'') orphaned) 0) = ''ok'' \<and>
   fst (read 3 0 2 (perform (AEmitData ''ok'') orphaned)) = Inr 0 \<and>
   promises (run 2 (snd (read 3 0 2 (perform (AEmitData ''ok'') orphaned)))) 0 =
     Some (ResolvedNum 2) \<and>
   buffers (run 2 (snd (read 3 0 2 (perform (AEmitData ''ok'') orphaned)))) 3 = ''ok'' \<and>
   fst (write' (ABuffer 3) orphaned) = Inr 0 \<and>
   promises (run 2 (snd (write' (ABuffer 3) orphaned))) 0 = Some Resolved \<and>
   lastWrite (run 2 (snd (write' (ABuffer 3) orphaned))) = Some ''hi'' \<and>
   fst (flush orphaned) = Inr 0 \<and> promises (run 2 (snd (flush orphaned))) 0 = Some Resolved \<and>
   fst (drain orphaned) = Inr 0 \<and> promises (run 3 (snd (drain orphaned))) 0 = Some Resolved"
proof -
  note o = orphaned_facts
  have w: "fst (write' (ABuffer 3) orphaned) = Inr 0 \<and>
     promises (run 2 (snd (write' (ABuffer 3) orphaned))) 0 = Some Resolved \<and>
     lastWrite (run 2 (snd (write' (ABuffer 3) orphaned))) = Some ''hi''"
    using o by (simp add: write'_def new_promise_def await_tick_def run_two quiescent_def
        step_def writeK_def settle_def Let_def)
  have f: "fst (flush orphaned) = Inr 0 \<and>
     promises (run 2 (snd (flush orphaned))) 0 = Some Resolved"
    using o by (simp add: flush_def new_promise_def await_tick_def run_two quiescent_def
        step_def flushK_def settle_def Let_def)
  have d: "fst (drain orphaned) = Inr 0 \<and>
     promises (run 3 (snd (drain orphaned))) 0 = Some Resolved"
    using o by (simp add: drain_def new_promise_def await_def await_tick_def run_three run_two
        quiescent_def step_def drainK_def settle_def Let_def)
  define s1 where "s1 = orphaned\<lparr>heap := (heap orphaned)(0 := (heap orphaned 0)\<lparr>data := ''ok''\<rparr>)\<rparr>"
  have e: "emitData ''ok'' orphaned = Inr s1"
    using o by (simp add: emitData_def s1_def Let_def)
  have p: "perform (AEmitData ''ok'') orphaned = s1"
    by (simp add: e)
  have o1: "uncaught s1 = None" "micro s1 = []" "ticks s1 = []"
    "isOpen s1" "port s1 = Some 0" "nextPid s1 = 0" "promises s1 0 = None"
    "data (heap s1 0) = ''ok''" "buffers s1 3 = ''hi''"
    using o by (simp_all add: s1_def)
  have r: "fst (read 3 0 2 s1) = Inr 0 \<and>
        promises (run 2 (snd (read 3 0 2 s1))) 0 = Some (ResolvedNum 2) \<and>
        buffers (run 2 (snd (read 3 0 2 s1))) 3 = ''ok''"
    using o1 by (simp add: read_def new_promise_def await_tick_def run_two quiescent_def
        step_def readK_def copy_def settle_def Let_def)
  show ?thesis
    unfolding p using o(5,6,13) w f d e r o1(8) by simp
qed

text \<open>
  C7 (amended). \<^verbatim>\<open>isOpen\<close> and \<^verbatim>\<open>port\<close> change in \<^verbatim>\<open>close\<close> and in the body of \<^verbatim>\<open>open\<close> only. A
  \<^verbatim>\<open>close\<close> that does not throw leaves \<^verbatim>\<open>isOpen\<close> false and \<^verbatim>\<open>port\<close> \<^verbatim>\<open>null\<close>. An \<^verbatim>\<open>open\<close> that is
  fulfilled leaves \<^verbatim>\<open>isOpen\<close> true and \<^verbatim>\<open>port\<close> set. An \<^verbatim>\<open>open\<close> that is rejected after its \<^verbatim>\<open>await\<close>
  leaves \<^verbatim>\<open>isOpen\<close> as it was and has stored the result of the lookup \<^verbatim>\<open>ports[path]\<close> in \<^verbatim>\<open>port\<close>:
  the record when there is one, \<^verbatim>\<open>undefined\<close> when there is none; so after such an \<^verbatim>\<open>open\<close> the
  two fields can disagree. Every other operation (creating a port, resetting the table, the
  calls of \<^verbatim>\<open>open\<close>, \<^verbatim>\<open>read\<close>, \<^verbatim>\<open>write\<close>, \<^verbatim>\<open>emitData\<close>, \<^verbatim>\<open>flush\<close>, \<^verbatim>\<open>drain\<close>, and every callback of the
  runtime but the body of an \<^verbatim>\<open>open\<close>) leaves both fields as they are.
\<close>

theorem handle_fields_change:
  "(\<forall>s1. close s = Inr s1 \<longrightarrow> \<not> isOpen s1 \<and> port s1 = None) \<and>
   (promises s p = None \<and> promises (openK path opts p s) p = Some Resolved \<longrightarrow>
      isOpen (openK path opts p s) \<and> port (openK path opts p s) \<noteq> None) \<and>
   (promises (openK path opts p s) p \<noteq> Some Resolved \<longrightarrow>
      isOpen (openK path opts p s) = isOpen s \<and> port (openK path opts p s) = ports s path) \<and>
   (a \<noteq> AClose \<and> \<not> (a = AStep \<and> opens_next s) \<longrightarrow>
      isOpen (perform a s) = isOpen s \<and> port (perform a s) = port s)"
  using handle_close [of s] handle_openK(1) [of path opts p s]
    handle_openK(2) [of s p path opts] handle_openK(3) [of path opts p s]
    handle_perform [of a s]
  by blast

text \<open>
  On the open instance: \<^verbatim>\<open>close\<close> clears both fields, the body of \<^verbatim>\<open>open\<close> is fulfilled and leaves
  both set, and a \<^verbatim>\<open>read\<close> changes neither. On the new instance: the body of \<^verbatim>\<open>open\<close> for a path that
  was never created is rejected, \<^verbatim>\<open>isOpen\<close> stays false and \<^verbatim>\<open>port\<close> is the missing entry.
\<close>

theorem handle_fields_change_witness:
  "(case close opened of Inl e \<Rightarrow> False | Inr s1 \<Rightarrow> \<not> isOpen s1 \<and> port s1 = None) \<and>
   promises opened 0 = None \<and>
   promises (openK ''/dev/A'' options_9600 0 opened) 0 = Some Resolved \<and>
   isOpen (openK ''/dev/A'' options_9600 0 opened) \<and>
   port (openK ''/dev/A'' options_9600 0 opened) \<noteq> None \<and>
   isOpen (perform (ARead 3 0 2) opened) \<and> port (perform (ARead 3 0 2) opened) = Some 0 \<and>
   promises (openK ''/dev/B'' options_9600 0 created) 0 =
     Some (Rejected (PortDoesNotExist ''/dev/B'')) \<and>
   \<not> isOpen (openK ''/dev/B'' options_9600 0 created) \<and>
   port (openK ''/dev/B'' options_9600 0 created) = None"
proof -
  have c: "\<exists>s1. close opened = Inr s1"
    using opened_facts by (simp add: close_def Let_def)
  have o: "promises (openK ''/dev/A'' options_9600 0 opened) 0 = Some Resolved"
    using opened_facts by (simp add: openK_def settle_def Let_def)
  have b: "promises (openK ''/dev/B'' options_9600 0 created) 0 =
     Some (Rejected (PortDoesNotExist ''/dev/B''))" "ports created ''/dev/B'' = None"
    using created_facts by (simp_all add: openK_def settle_def Let_def)
  show ?thesis
    using handle_fields_change [of opened 0 "''/dev/A''" options_9600 "ARead 3 0 2"]
      handle_fields_change [of created 0 "''/dev/B''" options_9600 AReset]
      c o b opened_facts created_facts
    by (auto split: sum.splits)
qed

text \<open>
  C7 as stated fails after an \<^verbatim>\<open>open\<close> that throws. A new instance opens a registered port: the
  \<^verbatim>\<open>open\<close> is rejected ("Open: binding is already open"), and \<^verbatim>\<open>port\<close> is set while \<^verbatim>\<open>isOpen\<close> is
  false. A new instance opens a port that another instance holds with \<^verbatim>\<open>lock\<close>: the \<^verbatim>\<open>open\<close> is
  rejected ("Port is locked cannot open"), and again \<^verbatim>\<open>port\<close> is set while \<^verbatim>\<open>isOpen\<close> is false.
\<close>

theorem failed_open_leaves_port_set:
  "\<not> isOpen created \<and> port created = None \<and>
   promises (run 2 (snd (open' ''/dev/A'' (Options options_9600) created))) 0 =
     Some (Rejected BindingAlreadyOpen) \<and>
   port (run 2 (snd (open' ''/dev/A'' (Options options_9600) created))) = Some 0 \<and>
   \<not> isOpen (run 2 (snd (open' ''/dev/A'' (Options options_9600) created))) \<and>
   \<not> isOpen locked_out \<and> port locked_out = None \<and>
   promises (run 2 (snd (open' ''/dev/A'' (Options options_9600) locked_out))) 0 =
     Some (Rejected PortLocked) \<and>
   port (run 2 (snd (open' ''/dev/A'' (Options options_9600) locked_out))) = Some 0 \<and>
   \<not> isOpen (run 2 (snd (open' ''/dev/A'' (Options options_9600) locked_out)))"
proof -
  have r: "at_rest s \<Longrightarrow> run 2 (snd (open' ''/dev/A'' (Options options_9600) s)) =
    openK ''/dev/A'' options_9600 (nextPid s)
      (s\<lparr>nextPid := nextPid s + 1, ticks := [], micro := [], in_micro := True\<rparr>)" for s
    by (simp add: open'_def new_promise_def run_two_await_tick rest_defs)
  have c: "promises (run 2 (snd (open' ''/dev/A'' (Options options_9600) created))) 0 =
     Some (Rejected BindingAlreadyOpen)"
    "port (run 2 (snd (open' ''/dev/A'' (Options options_9600) created))) = Some 0"
    "\<not> isOpen (run 2 (snd (open' ''/dev/A'' (Options options_9600) created)))"
    unfolding r [OF created_facts(1)] using created_facts
    by (simp_all add: openK_def settle_def rest_defs Let_def)
  have l: "promises (run 2 (snd (open' ''/dev/A'' (Options options_9600) locked_out))) 0 =
     Some (Rejected PortLocked)"
    "port (run 2 (snd (open' ''/dev/A'' (Options options_9600) locked_out))) = Some 0"
    "\<not> isOpen (run 2 (snd (open' ''/dev/A'' (Options options_9600) locked_out)))"
    unfolding r [OF locked_out_facts(1)] using locked_out_facts
    by (simp_all add: openK_def settle_def rest_defs Let_def)
  show ?thesis
    using c l created_facts locked_out_facts by simp
qed

text \<open>
  C8 (amended). \<^verbatim>\<open>write\<close> copies the bytes in its body, after the \<^verbatim>\<open>await\<close>: what is stored in
  \<^verbatim>\<open>lastWrite\<close>, appended to \<^verbatim>\<open>recording\<close> and echoed are the bytes that \<^verbatim>\<open>buffer\<close> holds when the
  body runs. Whatever the caller writes to \<^verbatim>\<open>buffer\<close> after that changes none of the three.
  From a runtime at rest, on an open instance with no write in flight: the write is taken; if
  \<^verbatim>\<open>buffer\<close> holds \<open>d1\<close> when the two callbacks of the write run (whether or not the caller has
  written to it since the call) and the caller then makes it hold \<open>d2\<close>, then \<^verbatim>\<open>lastWrite\<close> is
  \<open>d1\<close>, \<open>d1\<close> is what \<^verbatim>\<open>recording\<close> grew by (with \<^verbatim>\<open>record\<close>), and \<open>d1\<close> is what the callback of the
  echo appends to the receive buffer (with \<^verbatim>\<open>echo\<close>).
\<close>

theorem write_snapshot_in_body:
  "(isOpen s \<and> port s = Some r \<and> promises s p = None \<longrightarrow>
      lastWrite (set_buffer b d2 (writeK b p s)) = Some (buffers s b) \<and>
      recording (set_buffer b d2 (writeK b p s)) =
        (if record' (heap s r) then recording s @ buffers s b else recording s) \<and>
      ticks (set_buffer b d2 (writeK b p s)) =
        (if echo (heap s r) then ticks s @ [EmitWritten (buffers s b)] else ticks s)) \<and>
   (at_rest s \<and> isOpen s \<and> port s = Some r \<and> writeOperation s = None \<longrightarrow>
      (let s1 = set_buffer b d1 (snd (write' (ABuffer b) s));
           s2 = run 2 s1;
           s3 = step (set_buffer b d2 s2)
       in fst (write' (ABuffer b) s) = Inr (nextPid s) \<and>
          promises s2 (nextPid s) = Some Resolved \<and>
          lastWrite s2 = Some d1 \<and> lastWrite s3 = Some d1 \<and>
          recording s2 = (if record' (heap s r) then recording s @ d1 else recording s) \<and>
          recording s3 = recording s2 \<and>
          ticks s2 = (if echo (heap s r) then [EmitWritten d1] else []) \<and>
          data (heap s3 r) =
            (if echo (heap s r) then data (heap s r) @ d1 else data (heap s r))))"
proof (intro conjI impI)
  assume a: "isOpen s \<and> port s = Some r \<and> promises s p = None"
  then have h: "isOpen s" "port s = Some r" "promises s p = None"
    by simp_all
  note k = writeK_completes [OF h, of b]
  show "lastWrite (set_buffer b d2 (writeK b p s)) = Some (buffers s b)"
    using k(5) by (simp add: set_buffer_def)
  show "recording (set_buffer b d2 (writeK b p s)) =
        (if record' (heap s r) then recording s @ buffers s b else recording s)"
    using k(6) by (simp add: set_buffer_def)
  show "ticks (set_buffer b d2 (writeK b p s)) =
        (if echo (heap s r) then ticks s @ [EmitWritten (buffers s b)] else ticks s)"
    using k(7) by (simp add: set_buffer_def)
next
  assume a: "at_rest s \<and> isOpen s \<and> port s = Some r \<and> writeOperation s = None"
  let ?p = "nextPid s"
  let ?sw = "s\<lparr>nextPid := ?p + 1, writeOperation := Some ?p, buffers := (buffers s)(b := d1)\<rparr>"
  let ?s = "?sw\<lparr>ticks := [], micro := [], in_micro := True\<rparr>"
  have c: "fst (write' (ABuffer b) s) = Inr ?p"
    using a by (simp add: write'_def new_promise_def)
  have w: "set_buffer b d1 (snd (write' (ABuffer b) s)) = await_tick (WriteK b ?p) ?sw"
    using a by (simp add: write'_def new_promise_def await_tick_def set_buffer_def)
  define s2 where "s2 = writeK b ?p ?s"
  have r: "run 2 (set_buffer b d1 (snd (write' (ABuffer b) s))) = s2"
    unfolding w s2_def using a by (simp add: run_two_await_tick rest_defs)
  have h: "isOpen ?s" "port ?s = Some r" "promises ?s ?p = None"
    using a by (simp_all add: rest_defs)
  note k = writeK_completes [OF h, of b, folded s2_def]
  have f: "promises s2 ?p = Some Resolved" "lastWrite s2 = Some d1"
    "recording s2 = (if record' (heap s r) then recording s @ d1 else recording s)"
    "ticks s2 = (if echo (heap s r) then [EmitWritten d1] else [])" "heap s2 = heap s"
    "isOpen s2" "port s2 = Some r"
    using k by simp_all
  have m: "uncaught s2 = None" "micro s2 = []"
    unfolding s2_def using a by (simp_all add: writeK_def settle_def Let_def rest_defs)
  define s3 where "s3 = step (set_buffer b d2 s2)"
  have g: "lastWrite s3 = Some d1" "recording s3 = recording s2"
    "data (heap s3 r) = (if echo (heap s r) then data (heap s r) @ d1 else data (heap s r))"
    unfolding s3_def using f m
    by (auto simp: step_def set_buffer_def emitIfOpen_def emitData_def Let_def
        split: option.splits)
  show "let s1 = set_buffer b d1 (snd (write' (ABuffer b) s));
           s2 = run 2 s1;
           s3 = step (set_buffer b d2 s2)
       in fst (write' (ABuffer b) s) = Inr (nextPid s) \<and>
          promises s2 (nextPid s) = Some Resolved \<and>
          lastWrite s2 = Some d1 \<and> lastWrite s3 = Some d1 \<and>
          recording s2 = (if record' (heap s r) then recording s @ d1 else recording s) \<and>
          recording s3 = recording s2 \<and>
          ticks s2 = (if echo (heap s r) then [EmitWritten d1] else []) \<and>
          data (heap s3 r) =
            (if echo (heap s r) then data (heap s r) @ d1 else data (heap s r))"
    unfolding Let_def r c s3_def [symmetric] using f g by simp
qed

text \<open>
  The buffer holds "AB" when the body of the write runs and the caller overwrites it with "ZZ"
  afterwards: "AB" is stored, recorded and echoed.
\<close>

theorem write_snapshot_in_body_witness:
  "at_rest echo_ab \<and> isOpen echo_ab \<and> port echo_ab = Some 0 \<and> writeOperation echo_ab = None \<and>
   fst (write' (ABuffer 7) echo_ab) = Inr 0 \<and>
   lastWrite (step (set_buffer 7 ''ZZ''
     (run 2 (set_buffer 7 ''AB'' (snd (write' (ABuffer 7) echo_ab)))))) = Some ''AB'' \<and>
   recording (step (set_buffer 7 ''ZZ''
     (run 2 (set_buffer 7 ''AB'' (snd (write' (ABuffer 7) echo_ab)))))) = ''AB'' \<and>
   data (heap (step (set_buffer 7 ''ZZ''
     (run 2 (set_buffer 7 ''AB'' (snd (write' (ABuffer 7) echo_ab)))))) 0) = ''AB''"
  using write_snapshot_in_body [of echo_ab 0 0 7 "''ZZ''" "''AB''"] echo_ab_facts
  by (simp add: Let_def)

text \<open>
  C8 as stated fails for a change made between the call and the body. The caller calls
  \<^verbatim>\<open>write\<close> with a buffer that holds "AB"; the write is taken. Before the runtime runs a
  callback the caller overwrites the buffer with "XY". The body then copies "XY": \<^verbatim>\<open>lastWrite\<close>
  is "XY", "XY" is recorded, and "XY" is echoed into the receive buffer.
\<close>

theorem write_records_later_change:
  "at_rest echo_ab \<and> isOpen echo_ab \<and> buffers echo_ab 7 = ''AB'' \<and>
   fst (write' (ABuffer 7) echo_ab) = Inr 0 \<and>
   promises (run 2 (set_buffer 7 ''XY'' (snd (write' (ABuffer 7) echo_ab)))) 0 =
     Some Resolved \<and>
   lastWrite (run 2 (set_buffer 7 ''XY'' (snd (write' (ABuffer 7) echo_ab)))) = Some ''XY'' \<and>
   recording (run 2 (set_buffer 7 ''XY'' (snd (write' (ABuffer 7) echo_ab)))) = ''XY'' \<and>
   data (heap (step (run 2 (set_buffer 7 ''XY'' (snd (write' (ABuffer 7) echo_ab))))) 0) =
     ''XY''"
proof -
  note c = echo_ab_facts
  let ?sw = "echo_ab\<lparr>nextPid := 1, writeOperation := Some 0,
    buffers := (buffers echo_ab)(7 := ''XY'')\<rparr>"
  let ?s = "?sw\<lparr>ticks := [], micro := [], in_micro := True\<rparr>"
  have f: "fst (write' (ABuffer 7) echo_ab) = Inr 0"
    using c by (simp add: write'_def new_promise_def)
  have w: "set_buffer 7 ''XY'' (snd (write' (ABuffer 7) echo_ab)) = await_tick (WriteK 7 0) ?sw"
    using c by (simp add: write'_def new_promise_def await_tick_def set_buffer_def)
  define s2 where "s2 = writeK 7 0 ?s"
  have r: "run 2 (set_buffer 7 ''XY'' (snd (write' (ABuffer 7) echo_ab))) = s2"
    unfolding w s2_def using c by (simp add: run_two_await_tick rest_defs)
  have k: "promises s2 0 = Some Resolved" "lastWrite s2 = Some ''XY''" "recording s2 = ''XY''"
    "ticks s2 = [EmitWritten ''XY'']" "isOpen s2" "port s2 = Some 0" "pendingRead s2 = None"
    "uncaught s2 = None" "micro s2 = []" "data (heap s2 0) = []"
    unfolding s2_def using c by (simp_all add: writeK_def settle_def rest_defs Let_def)
  have e: "data (heap (step s2) 0) = ''XY''"
    unfolding step_emit [OF k(8,9,4,5,6)] using k by simp
  show ?thesis
    unfolding r using c f k e by simp
qed

text \<open>
  C9. Every \<^verbatim>\<open>createPort\<close> gives out a serial number that is greater than every one given out
  before, and \<^verbatim>\<open>reset\<close> leaves the counter alone: whatever the caller and the runtime do from a
  state \<open>s\<close> on (creating ports, resetting the table, creating a path again, any call on the
  instance), the serial numbers given out are all above the counter of \<open>s\<close>, strictly
  increasing in the order of the calls, and one for each \<^verbatim>\<open>createPort\<close>.
\<close>

theorem serial_numbers_increase:
  "(\<forall>n \<in> set (assigned as s). serialNumber s < n) \<and> sorted_wrt (<) (assigned as s) \<and>
   length (assigned as s) = length (filter is_create as) \<and>
   serialNumber (reset s) = serialNumber s"
proof (induction as arbitrary: s)
  case Nil
  show ?case by (simp add: reset_def)
next
  case (Cons a as)
  show ?case
  proof (cases "is_create a")
    case True
    then obtain path options where a: "a = ACreatePort path options"
      by (cases a) auto
    have sn: "serialNumber (createPort path options s) = serialNumber s + 1"
      using serialNumber_perform [of "ACreatePort path options" s] by simp
    from Cons.IH [of "createPort path options s"] sn show ?thesis
      unfolding a assigned_create by (fastforce simp: reset_def)
  next
    case False
    then have eq: "assigned (a # as) s = assigned as (perform a s)"
      by (cases a) auto
    from False have "serialNumber (perform a s) = serialNumber s"
      by (simp add: serialNumber_perform)
    with Cons.IH [of "perform a s"] False show ?thesis
      unfolding eq by (simp add: reset_def)
  qed
qed

theorem serial_numbers_increase_witness:
  "assigned [ACreatePort ''/dev/A'' no_options, AReset, ACreatePort ''/dev/A'' no_options,
     AOpen ''/dev/A'' NotAnObject, ACreatePort ''/dev/B'' no_options] init = [1, 2, 3] \<and>
   sorted_wrt (<) [1, 2, 3 :: nat] \<and> serialNumber (reset init) = serialNumber init"
  using serial_numbers_increase [of "[ACreatePort ''/dev/A'' no_options, AReset,
     ACreatePort ''/dev/A'' no_options, AOpen ''/dev/A'' NotAnObject,
     ACreatePort ''/dev/B'' no_options]" init]
  by (simp add: no_options_def createPort_def init_def Let_def call_defs)

text \<open>
  C10. \<^verbatim>\<open>write\<close> looks at its argument before it looks at the instance: on an instance that is
  not open, a call with something that is not a \<^verbatim>\<open>Buffer\<close> throws the \<^verbatim>\<open>TypeError\<close>
  "buffer is not a Buffer", not "Port is not open", which is what a call with a \<^verbatim>\<open>Buffer\<close>
  throws there. Neither call changes the state.
\<close>

theorem write_checks_argument_first:
  "\<not> isOpen s \<Longrightarrow>
   write' NotABuffer s = (Inl BufferNotBuffer, s) \<and> write' (ABuffer b) s = (Inl PortNotOpen, s)"
  by (simp add: write'_def)

theorem write_checks_argument_first_witness:
  "\<not> isOpen init \<and> write' NotABuffer init = (Inl BufferNotBuffer, init) \<and>
   write' (ABuffer 0) init = (Inl PortNotOpen, init)"
  using write_checks_argument_first [of init 0] by (simp add: init_def)

end
